theory Spec2Isabelle
  imports Complex_Main
begin

section \<open>Numbers and values\<close>

text \<open>
  The engine computes with JavaScript numbers, which are IEEE-754 doubles. A numeric field
  holds a finite double and is embedded as the real number it stands for. Rounding is part of
  the embedding where a stored rotation value is changed in place (\<open>val += 360\<close>,
  \<open>val -= 360\<close>, \<open>valB += fullRotations * 360\<close>): there it decides whether a loop ends and
  whether the value stays finite. The interpolation itself (the time value, the easing curve,
  \<open>lerp\<close>) is taken in exact arithmetic; the one case in which it leaves the finite numbers
  whatever the magnitudes, the division by zero in \<open>_calculateTimeValue\<close>, is written out.
  The step of a playhead from one frame to the next is exact as well: frame numbers are far
  below \<open>2^53\<close>, up to where adding 1 to a double is exact.
  A property that JavaScript may leave \<open>undefined\<close> is an \<open>option\<close>.

  \<open>Wick.Base\<close> is not part of the sources under study. Its own state (uuid, parent, children)
  takes no part in what follows and is left out of the records; \<open>super(args)\<close>,
  \<open>super.serialize\<close> and \<open>super.deserialize\<close> touch only that state.
\<close>

datatype js_error = TypeError | ReferenceError

text \<open>\<open>a || b\<close> on an optional number: \<open>undefined\<close> and \<open>0\<close> are falsy.\<close>

definition or_number :: "real option \<Rightarrow> real \<Rightarrow> real" where
  "or_number a b = (case a of None \<Rightarrow> b | Some v \<Rightarrow> if v = 0 then b else v)"

text \<open>\<open>a || b\<close> on an optional string: \<open>undefined\<close> and the empty string are falsy.\<close>

definition or_string :: "string option \<Rightarrow> string \<Rightarrow> string" where
  "or_string a b = (case a of None \<Rightarrow> b | Some s \<Rightarrow> if s = [] then b else s)"

text \<open>\<open>Array.prototype.indexOf\<close>: the first index holding the value, \<open>-1\<close> when there is none.\<close>

fun indexOf :: "'a list \<Rightarrow> 'a \<Rightarrow> int" where
  "indexOf [] v = - 1"
| "indexOf (a # as) v =
     (if a = v then 0 else (let i = indexOf as v in if i = - 1 then - 1 else i + 1))"


subsection \<open>Rounding to a double\<close>

text \<open>
  An arithmetic operation on doubles gives the double nearest to the exact result, the one
  with the even significand when two are equally near. A double has 53 significant bits:
  between \<open>2^e\<close> and \<open>2^(e+1)\<close> the doubles are \<open>2^(e-52)\<close> apart, and below \<open>2^(-1022)\<close>
  they are \<open>2^(-1074)\<close> apart. \<open>double_ulp v\<close> is that distance at \<open>v\<close>.
\<close>

definition double_exponent :: "real \<Rightarrow> int" where
  "double_exponent v = (if v = 0 then - 1022 else max \<lfloor>log 2 \<bar>v\<bar>\<rfloor> (- 1022))"

definition double_ulp :: "real \<Rightarrow> real" where
  "double_ulp v = 2 powr (of_int (double_exponent v) - 52)"

definition round_half_even :: "real \<Rightarrow> int" where
  "round_half_even q =
     (let f = \<lfloor>q\<rfloor>; d = q - of_int f
      in if d < 1 / 2 then f else if 1 / 2 < d then f + 1 else if even f then f else f + 1)"

definition round_double :: "real \<Rightarrow> real" where
  "round_double v =
     (if v = 0 then 0 else of_int (round_half_even (v / double_ulp v)) * double_ulp v)"

text \<open>
  The result of an operation whose exact value is \<open>v\<close>: the rounded value, or an infinity
  (\<open>None\<close>) when the rounded value has left the range of the doubles.
\<close>

definition to_double :: "real \<Rightarrow> real option" where
  "to_double v = (let r = round_double v in if \<bar>r\<bar> < 2 ^ 1024 then Some r else None)"


section \<open>Wick.Transformation\<close>

text \<open>
  A transformation holds six channels. The class \<open>Wick.Transformation\<close> is not among the
  sources; what the constructor without arguments gives is the parameter \<open>dflt\<close> of the
  embedding.
\<close>

record transformation =
  x :: real
  y :: real
  scaleX :: real
  scaleY :: real
  rotation :: real
  opacity :: real

text \<open>The property names \<open>"x"\<close>, \<open>"y"\<close>, \<open>"scaleX"\<close>, \<open>"scaleY"\<close>, \<open>"rotation"\<close>, \<open>"opacity"\<close>.\<close>

datatype propName =
  Prop_x | Prop_y | Prop_scaleX | Prop_scaleY | Prop_rotation | Prop_opacity

text \<open>\<open>transformation[propName]\<close>, read and written.\<close>

fun get_prop :: "transformation \<Rightarrow> propName \<Rightarrow> real" where
  "get_prop tf Prop_x = x tf"
| "get_prop tf Prop_y = y tf"
| "get_prop tf Prop_scaleX = scaleX tf"
| "get_prop tf Prop_scaleY = scaleY tf"
| "get_prop tf Prop_rotation = rotation tf"
| "get_prop tf Prop_opacity = opacity tf"

fun set_prop :: "transformation \<Rightarrow> propName \<Rightarrow> real \<Rightarrow> transformation" where
  "set_prop tf Prop_x v = tf\<lparr>x := v\<rparr>"
| "set_prop tf Prop_y v = tf\<lparr>y := v\<rparr>"
| "set_prop tf Prop_scaleX v = tf\<lparr>scaleX := v\<rparr>"
| "set_prop tf Prop_scaleY v = tf\<lparr>scaleY := v\<rparr>"
| "set_prop tf Prop_rotation v = tf\<lparr>rotation := v\<rparr>"
| "set_prop tf Prop_opacity v = tf\<lparr>opacity := v\<rparr>"

text \<open>
  The object a transformation is built from or written out as: each of the six properties
  may be missing.
\<close>

record transformation_values =
  values_x :: "real option"
  values_y :: "real option"
  values_scaleX :: "real option"
  values_scaleY :: "real option"
  values_rotation :: "real option"
  values_opacity :: "real option"

text \<open>
  Modelled from the spec: the getter \<open>values\<close> of \<open>Wick.Transformation\<close>, which is not under
  src/. The spec gives a transformation the six numbers x, y, scaleX, scaleY, rotation and
  opacity and has serialization reproduce every numeric field exactly: \<open>values\<close> is the
  object that holds the six channels.
\<close>

definition Transformation_values :: "transformation \<Rightarrow> transformation_values" where
  "Transformation_values this =
     \<lparr>values_x = Some (x this), values_y = Some (y this),
      values_scaleX = Some (scaleX this), values_scaleY = Some (scaleY this),
      values_rotation = Some (rotation this), values_opacity = Some (opacity this)\<rparr>"

text \<open>
  Modelled from the spec: the constructor of \<open>Wick.Transformation\<close>, which is not under src/.
  Called without an argument it gives the default transformation (\<open>dflt\<close>); called with an
  object it takes each of the six channels from the object, and from the default where the
  object lacks it.
\<close>

definition Transformation_new ::
  "transformation \<Rightarrow> transformation_values option \<Rightarrow> transformation" where
  "Transformation_new dflt args0 =
     (case args0 of
        None \<Rightarrow> dflt
      | Some args \<Rightarrow>
          \<lparr>x = (case values_x args of None \<Rightarrow> x dflt | Some v \<Rightarrow> v),
           y = (case values_y args of None \<Rightarrow> y dflt | Some v \<Rightarrow> v),
           scaleX = (case values_scaleX args of None \<Rightarrow> scaleX dflt | Some v \<Rightarrow> v),
           scaleY = (case values_scaleY args of None \<Rightarrow> scaleY dflt | Some v \<Rightarrow> v),
           rotation = (case values_rotation args of None \<Rightarrow> rotation dflt | Some v \<Rightarrow> v),
           opacity = (case values_opacity args of None \<Rightarrow> opacity dflt | Some v \<Rightarrow> v)\<rparr>)"


section \<open>Helpers of the tween code that live outside the sources\<close>

text \<open>
  Modelled from the spec: the global function \<open>lerp\<close> is not under src/. The spec calls it
  plain linear interpolation of a channel's two endpoint values by the eased parameter.
\<close>

definition lerp :: "real \<Rightarrow> real \<Rightarrow> real \<Rightarrow> real" where
  "lerp v0 v1 t = v0 * (1 - t) + v1 * t"

text \<open>
  Modelled from the spec: \<open>TWEEN.Easing.Linear.None\<close>, the entry of the easing table for
  easing type "none". The table belongs to the tween.js library, which is not under src/.
  The spec fixes this entry as the unmodified parameter (\<open>tt == t\<close>).
\<close>

definition Easing_Linear_None :: "real \<Rightarrow> real" where
  "Easing_Linear_None k = k"

text \<open>
  Modelled from the spec: \<open>TWEEN.Easing.Quadratic.In\<close>, the entry for easing type "in", not
  under src/. The spec names the entries other than "none" only as easing curves that take
  \<open>t\<close> to \<open>tt\<close> in \<open>[0,1]\<close>; this one is the library's quadratic ease-in.
\<close>

definition Easing_Quadratic_In :: "real \<Rightarrow> real" where
  "Easing_Quadratic_In k = k * k"

text \<open>
  Modelled from the spec: \<open>TWEEN.Easing.Quadratic.Out\<close>, the entry for easing type "out", not
  under src/; the library's quadratic ease-out.
\<close>

definition Easing_Quadratic_Out :: "real \<Rightarrow> real" where
  "Easing_Quadratic_Out k = k * (2 - k)"

text \<open>
  Modelled from the spec: \<open>TWEEN.Easing.Quadratic.InOut\<close>, the entry for easing type
  "in-out", not under src/; the library's quadratic ease-in-out, which doubles its argument,
  eases in below 1 and eases out from 1 on.
\<close>

definition Easing_Quadratic_InOut :: "real \<Rightarrow> real" where
  "Easing_Quadratic_InOut k =
     (let k2 = k * 2 in
      if k2 < 1 then 0.5 * k2 * k2
      else (let k3 = k2 - 1 in - 0.5 * (k3 * (k3 - 2) - 1)))"


section \<open>Wick.Tween\<close>

text \<open>
  The field \<open>easingType\<close> is the backing property \<open>_easingType\<close>: \<open>None\<close> is \<open>undefined\<close>,
  the state of the property before the setter has stored anything.
\<close>

record tween =
  playheadPosition :: real
  transformation :: transformation
  fullRotations :: real
  easingType :: "string option"

definition VALID_EASING_TYPES :: "string list" where
  "VALID_EASING_TYPES = [''none'', ''in'', ''out'', ''in-out'']"

text \<open>
  The setter of \<open>easingType\<close>. The assigned value is a string or \<open>undefined\<close>; a value that
  is not in the list is reported on the console and the stored value stays as it is.
\<close>

definition set_easingType :: "string option \<Rightarrow> tween \<Rightarrow> tween" where
  "set_easingType v this =
     (if indexOf (map Some VALID_EASING_TYPES) v = - 1 then this
      else this\<lparr>easingType := v\<rparr>)"

text \<open>The argument object of the constructor; each property may be missing.\<close>

record tween_args =
  arg_playheadPosition :: "real option"
  arg_transformation :: "transformation option"
  arg_fullRotations :: "real option"
  arg_easingType :: "string option"

definition no_args :: tween_args where
  "no_args = \<lparr>arg_playheadPosition = None, arg_transformation = None,
              arg_fullRotations = None, arg_easingType = None\<rparr>"

text \<open>
  The constructor. The object starts with \<open>_easingType\<close> undefined; the last assignment
  goes through the setter.
\<close>

definition Tween_new :: "transformation \<Rightarrow> tween_args option \<Rightarrow> tween" where
  "Tween_new dflt args0 =
     (let args = (case args0 of None \<Rightarrow> no_args | Some a \<Rightarrow> a);
          this = \<lparr>playheadPosition = or_number (arg_playheadPosition args) 1,
                  transformation =
                    (case arg_transformation args of
                       None \<Rightarrow> Transformation_new dflt None
                     | Some tf \<Rightarrow> tf),
                  fullRotations =
                    (case arg_fullRotations args of None \<Rightarrow> 0 | Some n \<Rightarrow> n),
                  easingType = None\<rparr>
      in set_easingType (Some (or_string (arg_easingType args) ''none'')) this)"

text \<open>
  \<open>_calculateTimeValue\<close>. With equal playhead positions JavaScript divides by zero and the
  result is \<open>NaN\<close> or an infinity, not a finite number: \<open>None\<close>.
\<close>

definition calculateTimeValue :: "tween \<Rightarrow> tween \<Rightarrow> real \<Rightarrow> real option" where
  "calculateTimeValue tweenA tweenB pos =
     (let tweenAPlayhead = playheadPosition tweenA;
          tweenBPlayhead = playheadPosition tweenB;
          dist = tweenBPlayhead - tweenAPlayhead
      in if dist = 0 then None else Some ((pos - tweenAPlayhead) / dist))"

text \<open>
  \<open>_getTweenFunction\<close>: a lookup in an object literal keyed by the easing type. The literal
  has the four easing functions as its own properties and inherits the properties of
  \<open>Object.prototype\<close>: eleven functions, and the accessor \<open>__proto__\<close>, which gives the
  prototype object itself. Any other key, \<open>undefined\<close> included, gives \<open>undefined\<close>. Only
  the setter writes the easing type, so through the methods of the class the key is one of
  the four valid strings or \<open>undefined\<close>.
\<close>

definition Object_prototype_functions :: "string list" where
  "Object_prototype_functions =
     [''constructor'', ''__defineGetter__'', ''__defineSetter__'', ''hasOwnProperty'',
      ''__lookupGetter__'', ''__lookupSetter__'', ''isPrototypeOf'', ''propertyIsEnumerable'',
      ''toString'', ''valueOf'', ''toLocaleString'']"

datatype tween_function =
  Undefined | Easing "real \<Rightarrow> real" | InheritedFunction string | PrototypeObject

definition getTweenFunction :: "tween \<Rightarrow> tween_function" where
  "getTweenFunction this =
     (case easingType this of
        None \<Rightarrow> Undefined
      | Some k \<Rightarrow>
          (case map_of [(''none'', Easing_Linear_None),
                        (''in'', Easing_Quadratic_In),
                        (''out'', Easing_Quadratic_Out),
                        (''in-out'', Easing_Quadratic_InOut)] k of
             Some f \<Rightarrow> Easing f
           | None \<Rightarrow>
               if k = ''__proto__'' then PrototypeObject
               else if k \<in> set Object_prototype_functions then InheritedFunction k
               else Undefined))"

text \<open>
  The two kinds of loop that constrain a rotation value: \<open>while(val < -180) val += 360\<close>
  and \<open>while(val > 180) val -= 360\<close>, each step a rounded operation on doubles. A loop that
  does not end has no result (\<open>None\<close>).
\<close>

partial_function (option) raise_rotation :: "real \<Rightarrow> real option" where
  "raise_rotation val =
     (if val < - 180 then raise_rotation (round_double (val + 360)) else Some val)"

partial_function (option) lower_rotation :: "real \<Rightarrow> real option" where
  "lower_rotation val =
     (if val > 180 then lower_rotation (round_double (val - 360)) else Some val)"

text \<open>
  The rotation branch of \<open>interpolate\<close>, in the order of the source: the first loop on
  \<open>valA\<close> and on \<open>valB\<close>, the second loop on \<open>valA\<close> and on \<open>valB\<close>, then
  \<open>valB += tweenA.fullRotations * 360\<close>. It gives the two values that are interpolated, or
  does not end, or leaves \<open>valB\<close> infinite.
\<close>

datatype rotation_result = Endpoints real real | Overflows | LoopsForever

definition rotation_values :: "tween \<Rightarrow> tween \<Rightarrow> rotation_result" where
  "rotation_values tweenA tweenB =
     (case raise_rotation (rotation (transformation tweenA)) of
        None \<Rightarrow> LoopsForever
      | Some valA1 \<Rightarrow>
     (case raise_rotation (rotation (transformation tweenB)) of
        None \<Rightarrow> LoopsForever
      | Some valB1 \<Rightarrow>
     (case lower_rotation valA1 of
        None \<Rightarrow> LoopsForever
      | Some valA2 \<Rightarrow>
     (case lower_rotation valB1 of
        None \<Rightarrow> LoopsForever
      | Some valB2 \<Rightarrow>
     (case to_double (fullRotations tweenA * 360) of
        None \<Rightarrow> Overflows
      | Some turns \<Rightarrow>
     (case to_double (valB2 + turns) of
        None \<Rightarrow> Overflows
      | Some valB3 \<Rightarrow> Endpoints valA2 valB3))))))"

text \<open>
  How a call ends: it throws, it returns a value, it never returns, or it calls a function
  inherited from \<open>Object.prototype\<close> as the tween function, where the embedding follows it
  no further. \<open>NotFinite\<close> is the return of a tween in which a channel is \<open>NaN\<close> or infinite;
  such a tween has no counterpart among the transformations of finite numbers.
\<close>

datatype 'a outcome =
  Throws js_error | NotFinite | Returns 'a | NeverReturns | CallsInherited string

text \<open>
  One round of the \<open>forEach\<close> in \<open>interpolate\<close>: the body run for one property name. The
  state is the tween under construction, with a mark that tells whether a channel written so
  far is not finite. A time value that is not finite makes the eased value and the
  interpolated channel not finite; so does an infinite \<open>valB\<close>. Calling a tween function
  that is \<open>undefined\<close>, or the prototype object, throws a \<open>TypeError\<close>.
\<close>

definition assign_prop ::
  "propName \<Rightarrow> real \<Rightarrow> real \<Rightarrow> real option \<Rightarrow> tween \<times> bool \<Rightarrow> tween \<times> bool" where
  "assign_prop propName valA valB tt state =
     (case tt of
        None \<Rightarrow> (fst state, True)
      | Some tt' \<Rightarrow>
          ((fst state)\<lparr>transformation :=
              set_prop (transformation (fst state)) propName (lerp valA valB tt')\<rparr>,
           snd state))"

definition interpolate_prop ::
  "tween \<Rightarrow> tween \<Rightarrow> real option \<Rightarrow> propName \<Rightarrow> tween \<times> bool \<Rightarrow> (tween \<times> bool) outcome" where
  "interpolate_prop tweenA tweenB t propName state =
     (case getTweenFunction tweenA of
        Undefined \<Rightarrow> Throws TypeError
      | PrototypeObject \<Rightarrow> Throws TypeError
      | InheritedFunction k \<Rightarrow> CallsInherited k
      | Easing tweenFn \<Rightarrow>
          (let tt = map_option tweenFn t;
               valA = get_prop (transformation tweenA) propName;
               valB = get_prop (transformation tweenB) propName
           in if propName = Prop_rotation
              then (case rotation_values tweenA tweenB of
                      LoopsForever \<Rightarrow> NeverReturns
                    | Overflows \<Rightarrow> Returns (fst state, True)
                    | Endpoints valA' valB' \<Rightarrow>
                        Returns (assign_prop propName valA' valB' tt state))
              else Returns (assign_prop propName valA valB tt state)))"

text \<open>\<open>forEach\<close> over the property names, stopping where a round does not return.\<close>

fun forEach_prop ::
  "(propName \<Rightarrow> 's \<Rightarrow> 's outcome) \<Rightarrow> propName list \<Rightarrow> 's \<Rightarrow> 's outcome" where
  "forEach_prop f [] s = Returns s"
| "forEach_prop f (p # ps) s =
     (case f p s of
        Returns s' \<Rightarrow> forEach_prop f ps s'
      | Throws e \<Rightarrow> Throws e
      | NotFinite \<Rightarrow> NotFinite
      | NeverReturns \<Rightarrow> NeverReturns
      | CallsInherited k \<Rightarrow> CallsInherited k)"

text \<open>\<open>interpolate\<close>.\<close>

definition interpolate :: "transformation \<Rightarrow> tween \<Rightarrow> tween \<Rightarrow> real \<Rightarrow> tween outcome" where
  "interpolate dflt tweenA tweenB pos =
     (let interpTween = Tween_new dflt None;
          t = calculateTimeValue tweenA tweenB pos
      in case forEach_prop (interpolate_prop tweenA tweenB t)
                [Prop_x, Prop_y, Prop_scaleX, Prop_scaleY, Prop_rotation, Prop_opacity]
                (interpTween, False) of
           Returns state \<Rightarrow>
             if snd state then NotFinite else Returns ((fst state)\<lparr>playheadPosition := pos\<rparr>)
         | Throws e \<Rightarrow> Throws e
         | NotFinite \<Rightarrow> NotFinite
         | NeverReturns \<Rightarrow> NeverReturns
         | CallsInherited k \<Rightarrow> CallsInherited k)"

text \<open>
  \<open>serialize\<close> and \<open>deserialize\<close>. The data object carries the four properties the tween
  writes; \<open>deserialize\<close> stores the easing type through the setter.
\<close>

record tween_data =
  data_playheadPosition :: real
  data_transformation :: transformation_values
  data_fullRotations :: real
  data_easingType :: "string option"

definition Tween_serialize :: "tween \<Rightarrow> tween_data" where
  "Tween_serialize this =
     \<lparr>data_playheadPosition = playheadPosition this,
      data_transformation = Transformation_values (transformation this),
      data_fullRotations = fullRotations this,
      data_easingType = easingType this\<rparr>"

definition Tween_deserialize :: "transformation \<Rightarrow> tween \<Rightarrow> tween_data \<Rightarrow> tween" where
  "Tween_deserialize dflt this data =
     set_easingType (data_easingType data)
       (this\<lparr>playheadPosition := data_playheadPosition data,
              transformation := Transformation_new dflt (Some (data_transformation data)),
              fullRotations := data_fullRotations data\<rparr>)"

text \<open>
  The transformation of the tween that \<open>interpolate\<close> returns, when it returns one, and the
  rotation channel of that transformation.
\<close>

definition interpolated_transformation ::
  "transformation \<Rightarrow> tween \<Rightarrow> tween \<Rightarrow> real \<Rightarrow> transformation option" where
  "interpolated_transformation dflt tweenA tweenB pos =
     (case interpolate dflt tweenA tweenB pos of
        Returns tw \<Rightarrow> Some (transformation tw)
      | Throws e \<Rightarrow> None
      | NotFinite \<Rightarrow> None
      | NeverReturns \<Rightarrow> None
      | CallsInherited k \<Rightarrow> None)"

definition interpolated_rotation ::
  "transformation \<Rightarrow> tween \<Rightarrow> tween \<Rightarrow> real \<Rightarrow> real option" where
  "interpolated_rotation dflt tweenA tweenB pos =
     map_option rotation (interpolated_transformation dflt tweenA tweenB pos)"


section \<open>Wick.Project\<close>


text \<open>
  The fields of a project that the methods below read or write. \<open>root_uuid\<close>,
  \<open>focus_uuid\<close> and \<open>selection_uuid\<close> are the properties \<open>_root\<close>, \<open>_focus\<close> and
  \<open>_selection\<close>; \<open>tickIntervalID\<close> is \<open>_tickIntervalID\<close>, with \<open>None\<close> for \<open>null\<close>.
\<close>

record project =
  name :: string
  width :: real
  height :: real
  framerate :: real
  backgroundColor :: string
  pan :: "real \<times> real"
  zoom :: real
  onionSkinEnabled :: bool
  onionSkinSeekBackwards :: real
  onionSkinSeekForwards :: real
  root_uuid :: string
  focus_uuid :: string
  selection_uuid :: string
  keysDown :: "string list"
  keysLastDown :: "string list"
  tickIntervalID :: "nat option"

text \<open>
  What a project method does outside the project object: calls on the view, the selection,
  the sounds, the timer and the callbacks handed to \<open>play\<close>, in the order they are made.
\<close>

datatype 'e effect =
    ProcessInput | Render | BuildPlayhead
  | SelectionClear | StopAllSounds | ClearInterval "nat option"
  | OnBeforeTick | OnError 'e | OnAfterTick

text \<open>
  The project together with the clip that the getter \<open>focus\<close> finds for \<open>_focus\<close> in the
  object cache, and the effects so far.
\<close>

record ('c, 'e) runtime =
  project :: project
  focused :: 'c
  effects :: "'e effect list"

definition emit :: "'e effect list \<Rightarrow> ('c, 'e) runtime \<Rightarrow> ('c, 'e) runtime" where
  "emit es rt = rt\<lparr>effects := effects rt @ es\<rparr>"

text \<open>
  Modelled from the spec: the method \<open>tick\<close> of \<open>Wick.Clip\<close>, which is not under src/. The
  spec has a tick execute the per-frame and per-object scripts and collect the first script
  failure, if any, as the tick's reported error rather than throwing. A script run on the
  clip either fails with an error (\<open>Inl\<close>, the script throws) or leaves the clip changed;
  \<open>run_scripts\<close> runs the scripts in order up to the first failure and gives that failure,
  or a falsy value (\<open>None\<close>), with the clip as the scripts left it.
\<close>

fun run_scripts :: "('c \<Rightarrow> 'e + 'c) list \<Rightarrow> 'c \<Rightarrow> 'e option \<times> 'c" where
  "run_scripts [] c = (None, c)"
| "run_scripts (script # scripts) c =
     (case script c of
        Inl e \<Rightarrow> (Some e, c)
      | Inr c' \<Rightarrow> run_scripts scripts c')"

text \<open>
  Modelled from the spec: \<open>Wick.Clip.tick\<close> as a call that may complete in either way: it
  returns what \<open>run_scripts\<close> collected and does not throw.
\<close>

definition Clip_tick ::
  "('c \<Rightarrow> 'e + 'c) list \<Rightarrow> 'c \<Rightarrow> ('x \<times> 'c) + ('e option \<times> 'c)" where
  "Clip_tick scripts c = Inr (run_scripts scripts c)"

text \<open>
  \<open>tick\<close>. The call \<open>this.focus.tick()\<close> is the parameter \<open>clip_tick\<close>: it returns an error
  value or a falsy one (\<open>Inr\<close>), or throws (\<open>Inl\<close>), each with the clip as the call left it.
  \<open>tick\<close> has no handler: what \<open>clip_tick\<close> throws leaves \<open>tick\<close> as thrown, with the
  project as it is at that point. The calls on the view are taken to complete.
\<close>

definition tick ::
  "('c \<Rightarrow> ('x \<times> 'c) + ('e option \<times> 'c)) \<Rightarrow> ('c, 'e) runtime
     \<Rightarrow> ('x \<times> ('c, 'e) runtime) + ('e option \<times> ('c, 'e) runtime)" where
  "tick clip_tick rt =
     (let rt1 = emit [ProcessInput] rt
      in case clip_tick (focused rt1) of
           Inl thrown \<Rightarrow> Inl (fst thrown, rt1\<lparr>focused := snd thrown\<rparr>)
         | Inr returned \<Rightarrow>
             (let error = fst returned;
                  rt2 = emit [Render, BuildPlayhead] (rt1\<lparr>focused := snd returned\<rparr>);
                  rt3 = rt2\<lparr>project :=
                          (project rt2)\<lparr>keysLastDown := [] @ keysDown (project rt2)\<rparr>\<rparr>
              in Inr (error, rt3)))"

definition stop :: "('c, 'e) runtime \<Rightarrow> ('c, 'e) runtime" where
  "stop rt =
     (let rt1 = emit [StopAllSounds] rt;
          rt2 = emit [ClearInterval (tickIntervalID (project rt1))] rt1
      in rt2\<lparr>project := (project rt2)\<lparr>tickIntervalID := None\<rparr>\<rparr>)"

text \<open>
  The function that \<open>play\<close> hands to \<open>setInterval\<close>: one round of the play loop. It has no
  handler either: what \<open>tick\<close> throws leaves the round as thrown, before \<open>onError\<close> or
  \<open>onAfterTick\<close> is reached.
\<close>

definition play_interval ::
  "('c \<Rightarrow> ('x \<times> 'c) + ('e option \<times> 'c)) \<Rightarrow> ('c, 'e) runtime
     \<Rightarrow> ('x \<times> ('c, 'e) runtime) + ('c, 'e) runtime" where
  "play_interval clip_tick rt =
     (let rt1 = emit [OnBeforeTick] rt
      in case tick clip_tick rt1 of
           Inl thrown \<Rightarrow> Inl thrown
         | Inr returned \<Rightarrow>
             (case fst returned of
                Some e \<Rightarrow> Inr (stop (emit [OnError e] (snd returned)))
              | None \<Rightarrow> Inr (emit [OnAfterTick] (snd returned))))"

text \<open>
  \<open>play\<close>; \<open>new_id\<close> is the identifier that \<open>setInterval\<close> returns. The test of
  \<open>_tickIntervalID\<close> is one of truthiness: \<open>null\<close> and the number 0 are falsy.
\<close>

definition play :: "nat \<Rightarrow> ('c, 'e) runtime \<Rightarrow> ('c, 'e) runtime" where
  "play new_id rt =
     (let rt1 = (case tickIntervalID (project rt) of
                   None \<Rightarrow> rt
                 | Some n \<Rightarrow> if n = 0 then rt else stop rt);
          rt2 = emit [SelectionClear] rt1
      in rt2\<lparr>project := (project rt2)\<lparr>tickIntervalID := Some new_id\<rparr>\<rparr>)"









text \<open>
  \<open>serialize\<close> and the instance method \<open>deserialize\<close>. In the data, a property that
  \<open>deserialize\<close> tests before it reads it may be missing.
\<close>

record project_data =
  pdata_name :: string
  pdata_width :: real
  pdata_height :: real
  pdata_backgroundColor :: string
  pdata_framerate :: real
  pdata_zoom :: "real option"
  pdata_pan :: "(real \<times> real) option"
  pdata_onionSkinEnabled :: "bool option"
  pdata_onionSkinSeekForwards :: "real option"
  pdata_onionSkinSeekBackwards :: "real option"
  pdata_root :: string
  pdata_focus :: string
  pdata_selection :: string

definition Project_serialize :: "project \<Rightarrow> project_data" where
  "Project_serialize this =
     \<lparr>pdata_name = name this,
      pdata_width = width this,
      pdata_height = height this,
      pdata_backgroundColor = backgroundColor this,
      pdata_framerate = framerate this,
      pdata_zoom = Some (zoom this),
      pdata_pan = Some (fst (pan this), snd (pan this)),
      pdata_onionSkinEnabled = Some (onionSkinEnabled this),
      pdata_onionSkinSeekForwards = Some (onionSkinSeekForwards this),
      pdata_onionSkinSeekBackwards = Some (onionSkinSeekBackwards this),
      pdata_root = root_uuid this,
      pdata_focus = focus_uuid this,
      pdata_selection = selection_uuid this\<rparr>"

text \<open>
  Reading an identifier that no enclosing function declares goes to the global scope, and
  throws a \<open>ReferenceError\<close> when the global scope has no such name either.
\<close>

definition read_global :: "(string \<rightharpoonup> 'v) \<Rightarrow> string \<Rightarrow> js_error + 'v" where
  "read_global globals ident =
     (case globals ident of None \<Rightarrow> Inl ReferenceError | Some v \<Rightarrow> Inr v)"

text \<open>
  \<open>deserialize\<close> assigns the fields and then evaluates \<open>return object\<close>. The method has the
  one parameter \<open>data\<close> and declares no variable, so \<open>object\<close> is read from the global scope.
  The result is the completion of the call together with the project as the call leaves it.
\<close>

definition Project_deserialize ::
  "(string \<rightharpoonup> 'v) \<Rightarrow> project \<Rightarrow> project_data \<Rightarrow> (js_error + 'v) \<times> project" where
  "Project_deserialize globals this0 data =
     (let this1 = this0\<lparr>name := pdata_name data,
                        width := pdata_width data,
                        height := pdata_height data,
                        framerate := pdata_framerate data,
                        backgroundColor := pdata_backgroundColor data\<rparr>;
          this2 = (case pdata_pan data of
                     None \<Rightarrow> this1
                   | Some p \<Rightarrow> this1\<lparr>pan := (fst p, snd p)\<rparr>);
          this3 = (case pdata_zoom data of
                     None \<Rightarrow> this2
                   | Some z \<Rightarrow> if z = 0 then this2 else this2\<lparr>zoom := z\<rparr>);
          this4 = (case pdata_onionSkinEnabled data of
                     None \<Rightarrow> this3
                   | Some b \<Rightarrow> if b then this3\<lparr>onionSkinEnabled := b\<rparr> else this3);
          this5 = (case pdata_onionSkinSeekForwards data of
                     None \<Rightarrow> this4
                   | Some n \<Rightarrow> if n = 0 then this4 else this4\<lparr>onionSkinSeekForwards := n\<rparr>);
          this6 = (case pdata_onionSkinSeekBackwards data of
                     None \<Rightarrow> this5
                   | Some n \<Rightarrow> if n = 0 then this5 else this5\<lparr>onionSkinSeekBackwards := n\<rparr>);
          this7 = this6\<lparr>root_uuid := pdata_root data,
                        focus_uuid := pdata_root data,
                        selection_uuid := pdata_selection data\<rparr>
      in (read_global globals ''object'', this7))"



section \<open>Concrete values\<close>

text \<open>Tweens, arguments, clips and a project on which the results below are run.\<close>

definition example_transformation :: "real \<Rightarrow> transformation" where
  "example_transformation r =
     \<lparr>x = 10, y = 20, scaleX = 1, scaleY = 2, rotation = r, opacity = 1\<rparr>"

definition example_target :: "real \<Rightarrow> transformation" where
  "example_target r =
     \<lparr>x = 50, y = 0, scaleX = 3, scaleY = 2, rotation = r, opacity = 0\<rparr>"

definition identity_transformation :: transformation where
  "identity_transformation =
     \<lparr>x = 0, y = 0, scaleX = 1, scaleY = 1, rotation = 0, opacity = 1\<rparr>"

definition example_tween :: "real \<Rightarrow> transformation \<Rightarrow> real \<Rightarrow> string \<Rightarrow> tween" where
  "example_tween pos tf n e =
     \<lparr>playheadPosition = pos, transformation = tf, fullRotations = n, easingType = Some e\<rparr>"

definition example_args :: "real option \<Rightarrow> string option \<Rightarrow> tween_args" where
  "example_args pos e =
     \<lparr>arg_playheadPosition = pos, arg_transformation = None,
      arg_fullRotations = None, arg_easingType = e\<rparr>"


definition example_project :: project where
  "example_project =
     \<lparr>name = ''My Project'', width = 720, height = 405, framerate = 12,
      backgroundColor = ''#ffffff'', pan = (3, 4), zoom = 2,
      onionSkinEnabled = False, onionSkinSeekBackwards = 1, onionSkinSeekForwards = 1,
      root_uuid = ''root'', focus_uuid = ''root'', selection_uuid = ''selection'',
      keysDown = [''a''], keysLastDown = [], tickIntervalID = Some 7\<rparr>"

definition example_runtime :: "'c \<Rightarrow> ('c, 'e) runtime" where
  "example_runtime c = \<lparr>project = example_project, focused = c, effects = []\<rparr>"


section \<open>Properties of the helpers\<close>

lemma indexOf_ge: "- 1 \<le> indexOf xs v"
  by (induction xs) (auto simp: Let_def)

lemma indexOf_absent: "indexOf xs v = - 1 \<longleftrightarrow> v \<notin> set xs"
proof (induction xs)
  case Nil
  show ?case by simp
next
  case (Cons a as)
  have "indexOf as v + 1 \<noteq> - 1" using indexOf_ge [of as v] by arith
  with Cons show ?case by (auto simp: Let_def)
qed

lemma lerp_zero: "lerp v0 v1 0 = v0"
  by (simp add: lerp_def)

lemma lerp_one: "lerp v0 v1 1 = v1"
  by (simp add: lerp_def)


lemma Easing_Quadratic_In_mono:
  assumes "0 \<le> s" "s \<le> u"
  shows "Easing_Quadratic_In s \<le> Easing_Quadratic_In u"
  unfolding Easing_Quadratic_In_def using assms by (intro mult_mono) auto

lemma Easing_Quadratic_Out_mono:
  assumes "s \<le> u" "u \<le> 1"
  shows "Easing_Quadratic_Out s \<le> Easing_Quadratic_Out u"
proof -
  have "0 \<le> (u - s) * (2 - s - u)" using assms by (intro mult_nonneg_nonneg) auto
  then show ?thesis unfolding Easing_Quadratic_Out_def by (simp add: algebra_simps)
qed

lemma Easing_Quadratic_InOut_mono:
  assumes "0 \<le> s" "s \<le> u" "u \<le> 1"
  shows "Easing_Quadratic_InOut s \<le> Easing_Quadratic_InOut u"
proof -
  consider (low) "u * 2 < 1" | (mid) "s * 2 < 1" "1 \<le> u * 2" | (high) "1 \<le> s * 2"
    by linarith
  then show ?thesis
  proof cases
    case low
    then have "s * 2 < 1" using assms by linarith
    moreover have "(s * 2) * (s * 2) \<le> (u * 2) * (u * 2)"
      using assms by (intro mult_mono) auto
    ultimately show ?thesis using low by (simp add: Easing_Quadratic_InOut_def Let_def)
  next
    case mid
    have sq: "(s * 2) * (s * 2) \<le> 1 * 1" using assms mid by (intro mult_mono) auto
    have nn: "0 \<le> (u * 2 - 1) * (2 - (u * 2 - 1))"
      using assms mid by (intro mult_nonneg_nonneg) auto
    have a: "Easing_Quadratic_InOut s = ((s * 2) * (s * 2)) / 2"
      using mid by (simp add: Easing_Quadratic_InOut_def Let_def)
    have b: "Easing_Quadratic_InOut u = 1 / 2 + ((u * 2 - 1) * (2 - (u * 2 - 1))) / 2"
      using mid by (simp add: Easing_Quadratic_InOut_def Let_def field_simps)
    show ?thesis unfolding a b using sq nn by linarith
  next
    case high
    then have hu: "1 \<le> u * 2" using assms by linarith
    have "0 \<le> ((u * 2 - 1) - (s * 2 - 1)) * (2 - (s * 2 - 1) - (u * 2 - 1))"
      using assms by (intro mult_nonneg_nonneg) auto
    then show ?thesis using high hu
      by (simp add: Easing_Quadratic_InOut_def Let_def field_simps)
  qed
qed

text \<open>
  Every valid easing type selects a tween function; each of the four fixes 0 and 1 and is
  monotone on \<open>[0,1]\<close>.
\<close>

lemma getTweenFunction_valid:
  assumes "easingType tweenA = Some e" "e \<in> set VALID_EASING_TYPES"
  shows "\<exists>f. getTweenFunction tweenA = Easing f \<and> f 0 = 0 \<and> f 1 = 1 \<and>
           (\<forall>s u. 0 \<le> s \<and> s \<le> u \<and> u \<le> 1 \<longrightarrow> f s \<le> f u)"
proof -
  consider "e = ''none''" | "e = ''in''" | "e = ''out''" | "e = ''in-out''"
    using assms(2) by (auto simp: VALID_EASING_TYPES_def)
  then show ?thesis
  proof cases
    case 1
    then show ?thesis using assms(1)
      by (simp add: getTweenFunction_def Easing_Linear_None_def)
  next
    case 2
    then show ?thesis using assms(1) Easing_Quadratic_In_mono
      by (simp add: getTweenFunction_def) (simp add: Easing_Quadratic_In_def)
  next
    case 3
    then show ?thesis using assms(1) Easing_Quadratic_Out_mono
      by (simp add: getTweenFunction_def) (simp add: Easing_Quadratic_Out_def)
  next
    case 4
    then show ?thesis using assms(1) Easing_Quadratic_InOut_mono
      by (simp add: getTweenFunction_def) (simp add: Easing_Quadratic_InOut_def)
  qed
qed

lemma getTweenFunction_undefined:
  "easingType tweenA = None \<Longrightarrow> getTweenFunction tweenA = Undefined"
  by (simp add: getTweenFunction_def)

subsection \<open>Rounding\<close>

lemma double_ulp_pos: "0 < double_ulp v"
  by (simp add: double_ulp_def)

lemma double_ulp_le:
  assumes "\<bar>v\<bar> < 2 powr of_int k" and "- 1021 \<le> k"
  shows "double_ulp v \<le> 2 powr (of_int k - 53)"
proof -
  have "double_exponent v \<le> k - 1"
  proof (cases "v = 0")
    case True
    then show ?thesis using assms(2) by (simp add: double_exponent_def)
  next
    case False
    then have "log 2 \<bar>v\<bar> < of_int k" using assms(1) by (simp add: log_less_iff)
    then have "\<lfloor>log 2 \<bar>v\<bar>\<rfloor> < k" by (simp add: floor_less_iff)
    then show ?thesis using False assms(2) by (simp add: double_exponent_def)
  qed
  then have "(of_int (double_exponent v) :: real) - 52 \<le> of_int k - 53" by linarith
  then show ?thesis unfolding double_ulp_def by (intro powr_mono) auto
qed

lemma round_half_even_floor: "\<lfloor>q\<rfloor> \<le> round_half_even q"
  by (simp add: round_half_even_def Let_def)

lemma round_half_even_ceil: "round_half_even q \<le> \<lfloor>q\<rfloor> + 1"
  by (simp add: round_half_even_def Let_def)

lemma round_half_even_error: "\<bar>of_int (round_half_even q) - q\<bar> \<le> 1 / 2"
proof -
  have "of_int \<lfloor>q\<rfloor> \<le> q" "q < of_int \<lfloor>q\<rfloor> + 1" by linarith+
  then show ?thesis by (auto simp: round_half_even_def Let_def)
qed

lemma round_half_even_of_int: "round_half_even (of_int n) = n"
  by (simp add: round_half_even_def Let_def)

lemma round_half_even_ge:
  assumes "of_int N \<le> q"
  shows "N \<le> round_half_even q"
proof -
  have "N \<le> \<lfloor>q\<rfloor>" using assms by (simp add: le_floor_iff)
  then show ?thesis using round_half_even_floor [of q] by linarith
qed

lemma round_half_even_le:
  assumes "q \<le> of_int N"
  shows "round_half_even q \<le> N"
proof (cases "q = of_int N")
  case True
  then show ?thesis by (simp add: round_half_even_of_int)
next
  case False
  then have "q < of_int N" using assms by simp
  then have "\<lfloor>q\<rfloor> < N" by (simp add: floor_less_iff)
  then show ?thesis using round_half_even_ceil [of q] by simp
qed

lemma round_double_error: "\<bar>round_double v - v\<bar> \<le> double_ulp v / 2"
proof (cases "v = 0")
  case True
  then show ?thesis using double_ulp_pos [of v] by (simp add: round_double_def)
next
  case False
  define u where "u = double_ulp v"
  have u: "0 < u" by (simp add: u_def double_ulp_pos)
  have "round_double v - v = (of_int (round_half_even (v / u)) - v / u) * u"
    using False u by (simp add: round_double_def u_def algebra_simps)
  then have "\<bar>round_double v - v\<bar> = \<bar>of_int (round_half_even (v / u)) - v / u\<bar> * u"
    using u by (simp add: abs_mult)
  also have "\<dots> \<le> (1 / 2) * u"
    using round_half_even_error [of "v / u"] u by (intro mult_right_mono) auto
  finally show ?thesis by (simp add: u_def)
qed

lemma round_double_ge_grid:
  assumes "m = of_int N * double_ulp v" and "m \<le> v"
  shows "m \<le> round_double v"
proof (cases "v = 0")
  case True
  then show ?thesis using assms(2) by (simp add: round_double_def)
next
  case False
  have u: "0 < double_ulp v" by (rule double_ulp_pos)
  have "of_int N \<le> v / double_ulp v" using assms u by (simp add: field_simps)
  then have "N \<le> round_half_even (v / double_ulp v)" by (rule round_half_even_ge)
  then have "of_int N * double_ulp v \<le> of_int (round_half_even (v / double_ulp v)) * double_ulp v"
    using u by (intro mult_right_mono) auto
  then show ?thesis using False assms(1) by (simp add: round_double_def)
qed

lemma round_double_le_grid:
  assumes "m = of_int N * double_ulp v" and "v \<le> m"
  shows "round_double v \<le> m"
proof (cases "v = 0")
  case True
  then show ?thesis using assms(2) by (simp add: round_double_def)
next
  case False
  have u: "0 < double_ulp v" by (rule double_ulp_pos)
  have "v / double_ulp v \<le> of_int N" using assms u by (simp add: field_simps)
  then have "round_half_even (v / double_ulp v) \<le> N" by (rule round_half_even_le)
  then have "of_int (round_half_even (v / double_ulp v)) * double_ulp v \<le> of_int N * double_ulp v"
    using u by (intro mult_right_mono) auto
  then show ?thesis using False assms(1) by (simp add: round_double_def)
qed

lemma int_on_grid:
  assumes "\<bar>v\<bar> < 2 ^ 53"
  shows "\<exists>N::int. of_int c = of_int N * double_ulp v"
proof -
  have "\<bar>v\<bar> < 2 powr of_int 53" using assms by simp
  from double_ulp_le [OF this] have le: "double_ulp v \<le> 2 powr 0" by simp
  have "double_exponent v \<le> 52"
  proof (rule ccontr)
    assume "\<not> double_exponent v \<le> 52"
    then have "(0::real) < of_int (double_exponent v) - 52" by simp
    then have "2 powr 0 < (2::real) powr (of_int (double_exponent v) - 52)"
      by (intro powr_less_mono) auto
    then show False using le by (simp add: double_ulp_def)
  qed
  define k where "k = nat (52 - double_exponent v)"
  have k: "real k = 52 - of_int (double_exponent v)"
    using \<open>double_exponent v \<le> 52\<close> by (simp add: k_def)
  have "double_ulp v * 2 ^ k = 2 powr (of_int (double_exponent v) - 52) * 2 powr (real k)"
    by (simp add: double_ulp_def powr_realpow)
  also have "\<dots> = 2 powr 0" unfolding powr_add [symmetric] k by simp
  finally have one: "double_ulp v * 2 ^ k = 1" by simp
  have "of_int c = of_int (c * 2 ^ k) * double_ulp v"
    using one by (simp add: algebra_simps)
  then show ?thesis by blast
qed

lemma round_double_nonneg: "0 \<le> v \<Longrightarrow> 0 \<le> round_double v"
  using round_double_ge_grid [of 0 0 v] by simp

lemma round_double_nonpos: "v \<le> 0 \<Longrightarrow> round_double v \<le> 0"
  using round_double_le_grid [of 0 0 v] by simp

lemma round_double_of_int: "\<bar>n\<bar> < 2 ^ 53 \<Longrightarrow> round_double (of_int n) = of_int n"
proof -
  assume a: "\<bar>n\<bar> < 2 ^ 53"
  have "\<bar>of_int n :: real\<bar> < 2 ^ 53"
  proof -
    have "(of_int \<bar>n\<bar> :: real) < of_int (2 ^ 53)" using a by (simp only: of_int_less_iff)
    then show ?thesis by simp
  qed
  from int_on_grid [OF this, of n] obtain N :: int
    where N: "(of_int n :: real) = of_int N * double_ulp (of_int n)" by blast
  from round_double_ge_grid [OF N] round_double_le_grid [OF N]
  show ?thesis by simp
qed

lemma round_double_ge_int:
  assumes "of_int c \<le> v" and "c \<le> 0" and "\<bar>c\<bar> < 2 ^ 53"
  shows "of_int c \<le> round_double v"
proof (cases "0 \<le> v")
  case True
  then show ?thesis using round_double_nonneg [of v] assms(2) by simp
next
  case False
  then have "\<bar>v\<bar> \<le> \<bar>of_int c\<bar>" using assms(1) by simp
  moreover have "\<bar>of_int c :: real\<bar> < 2 ^ 53"
  proof -
    have "(of_int \<bar>c\<bar> :: real) < of_int (2 ^ 53)" using assms(3) by (simp only: of_int_less_iff)
    then show ?thesis by simp
  qed
  ultimately have "\<bar>v\<bar> < 2 ^ 53" by linarith
  from int_on_grid [OF this, of c] obtain N :: int
    where N: "(of_int c :: real) = of_int N * double_ulp v" by blast
  from round_double_ge_grid [OF N assms(1)] show ?thesis .
qed

lemma round_double_le_int:
  assumes "v \<le> of_int c" and "0 \<le> c" and "\<bar>c\<bar> < 2 ^ 53"
  shows "round_double v \<le> of_int c"
proof (cases "v \<le> 0")
  case True
  then show ?thesis using round_double_nonpos [of v] assms(2) by simp
next
  case False
  then have "\<bar>v\<bar> \<le> \<bar>of_int c\<bar>" using assms(1) by simp
  moreover have "\<bar>of_int c :: real\<bar> < 2 ^ 53"
  proof -
    have "(of_int \<bar>c\<bar> :: real) < of_int (2 ^ 53)" using assms(3) by (simp only: of_int_less_iff)
    then show ?thesis by simp
  qed
  ultimately have "\<bar>v\<bar> < 2 ^ 53" by linarith
  from int_on_grid [OF this, of c] obtain N :: int
    where N: "(of_int c :: real) = of_int N * double_ulp v" by blast
  from round_double_le_grid [OF N assms(1)] show ?thesis .
qed


lemma lower_rotation_in_range: "val \<le> 180 \<Longrightarrow> lower_rotation val = Some val"
  by (subst lower_rotation.simps) simp

lemma raise_rotation_in_range: "- 180 \<le> val \<Longrightarrow> raise_rotation val = Some val"
  by (subst raise_rotation.simps) simp

lemma lower_step:
  assumes "180 < v" and "v \<le> 2 ^ 62"
  shows "- 180 \<le> round_double (v - 360)" and "round_double (v - 360) \<le> v - 104"
proof -
  show "- 180 \<le> round_double (v - 360)"
    using round_double_ge_int [of "- 180" "v - 360"] assms(1) by simp
  have "\<bar>v - 360\<bar> < 2 powr of_int 62" using assms by simp
  from double_ulp_le [OF this] have "double_ulp (v - 360) \<le> 512" by simp
  then show "round_double (v - 360) \<le> v - 104"
    using round_double_error [of "v - 360"] by linarith
qed

lemma raise_step:
  assumes "v < - 180" and "- (2 ^ 62) \<le> v"
  shows "round_double (v + 360) \<le> 180" and "v + 104 \<le> round_double (v + 360)"
proof -
  show "round_double (v + 360) \<le> 180"
    using round_double_le_int [of "v + 360" 180] assms(1) by simp
  have "\<bar>v + 360\<bar> < 2 powr of_int 62" using assms by simp
  from double_ulp_le [OF this] have "double_ulp (v + 360) \<le> 512" by simp
  then show "v + 104 \<le> round_double (v + 360)"
    using round_double_error [of "v + 360"] by linarith
qed

lemma lower_rotation_fuel:
  "- 180 \<le> v \<Longrightarrow> v \<le> 2 ^ 62 \<Longrightarrow> v \<le> 180 + 104 * real n
    \<Longrightarrow> \<exists>r. lower_rotation v = Some r \<and> - 180 \<le> r \<and> r \<le> 180"
proof (induction n arbitrary: v)
  case 0
  then show ?case by (simp add: lower_rotation_in_range)
next
  case (Suc n)
  show ?case
  proof (cases "v \<le> 180")
    case True
    then show ?thesis using Suc.prems(1) by (simp add: lower_rotation_in_range)
  next
    case False
    then have gt: "180 < v" by simp
    note st = lower_step [OF gt Suc.prems(2)]
    have "round_double (v - 360) \<le> 2 ^ 62" using st(2) Suc.prems(2) by linarith
    moreover have "round_double (v - 360) \<le> 180 + 104 * real n"
      using st(2) Suc.prems(3) by simp
    ultimately obtain r where "lower_rotation (round_double (v - 360)) = Some r"
      "- 180 \<le> r" "r \<le> 180"
      using Suc.IH [OF st(1)] by blast
    then show ?thesis using gt by (subst lower_rotation.simps) simp
  qed
qed

lemma lower_rotation_returns:
  assumes "- 180 \<le> v" and "v \<le> 2 ^ 62"
  shows "\<exists>r. lower_rotation v = Some r \<and> - 180 \<le> r \<and> r \<le> 180"
proof -
  have "v \<le> 180 + 104 * real (nat \<lceil>v\<rceil>)" using assms(1) by linarith
  from lower_rotation_fuel [OF assms this] show ?thesis .
qed

lemma raise_rotation_fuel:
  "- (2 ^ 62) \<le> v \<Longrightarrow> v \<le> 180 \<Longrightarrow> - 180 - 104 * real n \<le> v
    \<Longrightarrow> \<exists>r. raise_rotation v = Some r \<and> - 180 \<le> r \<and> r \<le> 180"
proof (induction n arbitrary: v)
  case 0
  then show ?case by (simp add: raise_rotation_in_range)
next
  case (Suc n)
  show ?case
  proof (cases "- 180 \<le> v")
    case True
    then show ?thesis using Suc.prems(2) by (simp add: raise_rotation_in_range)
  next
    case False
    then have lt: "v < - 180" by simp
    note st = raise_step [OF lt Suc.prems(1)]
    have "- (2 ^ 62) \<le> round_double (v + 360)" using st(2) Suc.prems(1) by linarith
    moreover have "- 180 - 104 * real n \<le> round_double (v + 360)"
      using st(2) Suc.prems(3) by simp
    ultimately obtain r where "raise_rotation (round_double (v + 360)) = Some r"
      "- 180 \<le> r" "r \<le> 180"
      using Suc.IH [OF _ st(1)] by blast
    then show ?thesis using lt by (subst raise_rotation.simps) simp
  qed
qed

lemma raise_rotation_returns:
  assumes "- (2 ^ 62) \<le> v"
  shows "\<exists>r. raise_rotation v = Some r \<and> - 180 \<le> r \<and> (v \<le> 180 \<longrightarrow> r \<le> 180)
           \<and> (- 180 \<le> v \<longrightarrow> r = v)"
proof (cases "- 180 \<le> v")
  case True
  then show ?thesis by (simp add: raise_rotation_in_range)
next
  case False
  then have "v \<le> 180" by simp
  moreover have "- 180 - 104 * real (nat \<lceil>- v\<rceil>) \<le> v" by linarith
  ultimately show ?thesis using raise_rotation_fuel [OF assms] False by blast
qed

lemma round_double_absorbs: "round_double (2 ^ 63 - 360) = 2 ^ 63"
proof -
  define big :: real where "big = 2 ^ 63 - 360"
  have val: "big = 9223372036854775448" by (simp add: big_def)
  have e: "\<lfloor>log 2 \<bar>big\<bar>\<rfloor> = 62"
    unfolding val by (subst floor_log_eq_powr_iff) simp_all
  have nz: "big \<noteq> 0" by (simp add: val)
  have u: "double_ulp big = 1024"
    using e nz by (simp add: double_ulp_def double_exponent_def)
  have q: "round_half_even (big / 1024) = 2 ^ 53"
    unfolding val by (simp add: round_half_even_def Let_def)
  have "round_double big = of_int (2 ^ 53) * 1024"
    using nz by (simp only: round_double_def u q if_False)
  then show ?thesis unfolding big_def by simp
qed

lemma lower_rotation_never_returns: "lower_rotation (2 ^ 63) = None"
proof (rule ccontr)
  assume "lower_rotation (2 ^ 63) \<noteq> None"
  then obtain r where r: "lower_rotation (2 ^ 63) = Some r" by auto
  have g: "(180::real) < 2 ^ 63" by simp
  have "(2 ^ 63 :: real) \<noteq> 2 ^ 63"
  proof (rule lower_rotation.raw_induct [where P = "\<lambda>v w. v \<noteq> 2 ^ 63", OF _ r])
    fix lower :: "real \<Rightarrow> real option" and val res :: real
    assume IH: "\<And>v w. lower v = Some w \<Longrightarrow> v \<noteq> 2 ^ 63"
      and step: "(if 180 < val then lower (round_double (val - 360)) else Some val) = Some res"
    show "val \<noteq> 2 ^ 63"
    proof
      assume val: "val = 2 ^ 63"
      have "(if 180 < (2 ^ 63 :: real) then lower (round_double (2 ^ 63 - 360))
             else Some (2 ^ 63)) = Some res"
        using step unfolding val .
      then have "lower (round_double (2 ^ 63 - 360)) = Some res"
        using g by (simp only: if_True)
      then have "lower (2 ^ 63) = Some res" by (simp only: round_double_absorbs)
      from IH [OF this] show False by blast
    qed
  qed
  then show False by blast
qed

lemma to_double_of_int: "\<bar>n\<bar> < 2 ^ 53 \<Longrightarrow> to_double (of_int n) = Some (of_int n)"
proof -
  assume a: "\<bar>n\<bar> < 2 ^ 53"
  have "(of_int \<bar>n\<bar> :: real) < of_int (2 ^ 53)" using a by (simp only: of_int_less_iff)
  then have "\<bar>of_int n :: real\<bar> < 2 ^ 53" by simp
  also have "(2 ^ 53 :: real) < 2 ^ 1024" by simp
  finally show ?thesis using a by (simp add: to_double_def round_double_of_int)
qed

lemma to_double_returns:
  assumes "\<bar>v\<bar> \<le> 2 ^ 1023 + 2 ^ 1022"
  shows "\<exists>r. to_double v = Some r \<and> \<bar>r - v\<bar> \<le> 2 ^ 970"
proof -
  have "\<bar>v\<bar> < 2 powr of_int 1024" using assms by simp
  from double_ulp_le [OF this] have "double_ulp v \<le> 2 ^ 971" by simp
  then have err: "\<bar>round_double v - v\<bar> \<le> 2 ^ 970"
    using round_double_error [of v] by simp
  then have "\<bar>round_double v\<bar> \<le> 2 ^ 1023 + 2 ^ 1022 + 2 ^ 970" using assms by linarith
  also have "\<dots> < (2 ^ 1024 :: real)" by simp
  finally show ?thesis using err by (simp add: to_double_def)
qed

subsection \<open>The rotation values that are interpolated\<close>

text \<open>
  A rotation of magnitude at most \<open>2^62\<close> leaves the two loops with a value in
  \<open>[-180, 180]\<close>, and unchanged when it was in that interval.
\<close>

lemma constrain_returns:
  assumes "\<bar>v\<bar> \<le> 2 ^ 62"
  shows "\<exists>v1 r. raise_rotation v = Some v1 \<and> lower_rotation v1 = Some r
            \<and> - 180 \<le> r \<and> r \<le> 180 \<and> (- 180 \<le> v \<and> v \<le> 180 \<longrightarrow> r = v)"
proof -
  have lo: "- (2 ^ 62) \<le> v" and hi: "v \<le> 2 ^ 62" using assms by linarith+
  from raise_rotation_returns [OF lo] obtain v1
    where v1: "raise_rotation v = Some v1" "- 180 \<le> v1" "v \<le> 180 \<longrightarrow> v1 \<le> 180"
      "- 180 \<le> v \<longrightarrow> v1 = v"
    by blast
  have "v1 \<le> 2 ^ 62"
  proof (cases "- 180 \<le> v")
    case True
    then show ?thesis using v1(4) hi by simp
  next
    case False
    then have "v1 \<le> 180" using v1(3) by simp
    then show ?thesis by simp
  qed
  from lower_rotation_returns [OF v1(2) this] obtain r
    where r: "lower_rotation v1 = Some r" "- 180 \<le> r" "r \<le> 180" by blast
  have "r = v" if "- 180 \<le> v" "v \<le> 180"
  proof -
    have "v1 = v" using v1(4) that by simp
    then show ?thesis using r(1) that by (simp add: lower_rotation_in_range)
  qed
  then show ?thesis using v1(1) r by blast
qed

lemma rotation_values_steps:
  assumes "\<bar>rotation (transformation tweenA)\<bar> \<le> 2 ^ 62"
    and "\<bar>rotation (transformation tweenB)\<bar> \<le> 2 ^ 62"
    and "\<bar>fullRotations tweenA\<bar> \<le> 2 ^ 1015"
  shows "\<exists>valA1 valA valB1 valB2 turns valB.
              raise_rotation (rotation (transformation tweenA)) = Some valA1
            \<and> lower_rotation valA1 = Some valA
            \<and> raise_rotation (rotation (transformation tweenB)) = Some valB1
            \<and> lower_rotation valB1 = Some valB2
            \<and> to_double (fullRotations tweenA * 360) = Some turns
            \<and> to_double (valB2 + turns) = Some valB
            \<and> rotation_values tweenA tweenB = Endpoints valA valB
            \<and> - 180 \<le> valA \<and> valA \<le> 180 \<and> - 180 \<le> valB2 \<and> valB2 \<le> 180
            \<and> (- 180 \<le> rotation (transformation tweenA)
                 \<and> rotation (transformation tweenA) \<le> 180
                \<longrightarrow> valA = rotation (transformation tweenA))
            \<and> (- 180 \<le> rotation (transformation tweenB)
                 \<and> rotation (transformation tweenB) \<le> 180
                \<longrightarrow> valB2 = rotation (transformation tweenB))"
proof -
  from constrain_returns [OF assms(1)] obtain a1 a2
    where a: "raise_rotation (rotation (transformation tweenA)) = Some a1"
      "lower_rotation a1 = Some a2" "- 180 \<le> a2" "a2 \<le> 180"
      "- 180 \<le> rotation (transformation tweenA) \<and> rotation (transformation tweenA) \<le> 180
        \<longrightarrow> a2 = rotation (transformation tweenA)"
    by blast
  from constrain_returns [OF assms(2)] obtain b1 b2
    where b: "raise_rotation (rotation (transformation tweenB)) = Some b1"
      "lower_rotation b1 = Some b2" "- 180 \<le> b2" "b2 \<le> 180"
      "- 180 \<le> rotation (transformation tweenB) \<and> rotation (transformation tweenB) \<le> 180
        \<longrightarrow> b2 = rotation (transformation tweenB)"
    by blast
  define E :: real where "E = 2 ^ 970"
  define M :: real where "M = 2 ^ 1023 + 2 ^ 1022"
  have E: "0 \<le> E" "2 ^ 1015 * 360 \<le> M - 2 * E" "180 + (M - 2 * E) + E \<le> M"
    by (simp_all add: E_def M_def)
  have "\<bar>fullRotations tweenA * 360\<bar> \<le> 2 ^ 1015 * 360"
    using assms(3) by (simp add: abs_mult)
  then have f: "\<bar>fullRotations tweenA * 360\<bar> \<le> M - 2 * E" using E(2) by linarith
  then have "\<bar>fullRotations tweenA * 360\<bar> \<le> M" using E(1) by linarith
  then have "\<bar>fullRotations tweenA * 360\<bar> \<le> 2 ^ 1023 + 2 ^ 1022" by (simp only: M_def)
  from to_double_returns [OF this] obtain turns
    where t: "to_double (fullRotations tweenA * 360) = Some turns"
      "\<bar>turns - fullRotations tweenA * 360\<bar> \<le> 2 ^ 970"
    by blast
  have t': "\<bar>turns - fullRotations tweenA * 360\<bar> \<le> E" using t(2) by (simp only: E_def)
  have "\<bar>b2 + turns\<bar> \<le> M" using b(3,4) t' f E by linarith
  then have "\<bar>b2 + turns\<bar> \<le> 2 ^ 1023 + 2 ^ 1022" by (simp only: M_def)
  from to_double_returns [OF this] obtain valB where v: "to_double (b2 + turns) = Some valB"
    by blast
  have "rotation_values tweenA tweenB = Endpoints a2 valB"
    by (simp add: rotation_values_def a(1,2) b(1,2) t(1) v)
  then show ?thesis using a b t(1) v by blast
qed

lemma rotation_values_returns:
  assumes "\<bar>rotation (transformation tweenA)\<bar> \<le> 2 ^ 62"
    and "\<bar>rotation (transformation tweenB)\<bar> \<le> 2 ^ 62"
    and "\<bar>fullRotations tweenA\<bar> \<le> 2 ^ 1015"
  shows "\<exists>valA1 valA valB.
              raise_rotation (rotation (transformation tweenA)) = Some valA1
            \<and> lower_rotation valA1 = Some valA
            \<and> rotation_values tweenA tweenB = Endpoints valA valB
            \<and> - 180 \<le> valA \<and> valA \<le> 180
            \<and> (- 180 \<le> rotation (transformation tweenA)
                 \<and> rotation (transformation tweenA) \<le> 180
                \<longrightarrow> valA = rotation (transformation tweenA))"
  using rotation_values_steps [OF assms] by blast

text \<open>A rotation of \<open>2^63\<close> on either tween keeps the second loop running for ever.\<close>

lemma rotation_values_loops_A:
  "rotation (transformation tweenA) = 2 ^ 63 \<Longrightarrow> \<bar>rotation (transformation tweenB)\<bar> \<le> 2 ^ 62
    \<Longrightarrow> rotation_values tweenA tweenB = LoopsForever"
proof -
  assume a: "rotation (transformation tweenA) = 2 ^ 63"
    and b: "\<bar>rotation (transformation tweenB)\<bar> \<le> 2 ^ 62"
  from constrain_returns [OF b] obtain b1
    where b1: "raise_rotation (rotation (transformation tweenB)) = Some b1" by blast
  have "raise_rotation (2 ^ 63) = Some (2 ^ 63)" by (rule raise_rotation_in_range) simp
  then show ?thesis
    by (simp only: rotation_values_def a b1 lower_rotation_never_returns option.case)
qed

lemma rotation_values_loops_B:
  "rotation (transformation tweenB) = 2 ^ 63 \<Longrightarrow> \<bar>rotation (transformation tweenA)\<bar> \<le> 2 ^ 62
    \<Longrightarrow> rotation_values tweenA tweenB = LoopsForever"
proof -
  assume b: "rotation (transformation tweenB) = 2 ^ 63"
    and a: "\<bar>rotation (transformation tweenA)\<bar> \<le> 2 ^ 62"
  from constrain_returns [OF a] obtain a1 a2
    where a1: "raise_rotation (rotation (transformation tweenA)) = Some a1"
      "lower_rotation a1 = Some a2" by blast
  have "raise_rotation (2 ^ 63) = Some (2 ^ 63)" by (rule raise_rotation_in_range) simp
  then show ?thesis
    by (simp only: rotation_values_def a1 b lower_rotation_never_returns option.case)
qed

text \<open>The rotation values at whole numbers of degrees in the exact range.\<close>

lemma rotation_values_of_int:
  assumes "rotation (transformation tweenA) = of_int a" and "- 180 \<le> a" and "a \<le> 180"
    and "rotation (transformation tweenB) = of_int b" and "- 180 \<le> b" and "b \<le> 180"
    and "fullRotations tweenA = of_int n" and "\<bar>n\<bar> \<le> 2 ^ 40"
  shows "rotation_values tweenA tweenB = Endpoints (of_int a) (of_int (b + n * 360))"
proof -
  have ra: "raise_rotation (of_int a) = Some (of_int a)"
    "lower_rotation (of_int a) = Some (of_int a)"
    using assms(2,3) by (simp_all add: raise_rotation_in_range lower_rotation_in_range)
  have rb: "raise_rotation (of_int b) = Some (of_int b)"
    "lower_rotation (of_int b) = Some (of_int b)"
    using assms(5,6) by (simp_all add: raise_rotation_in_range lower_rotation_in_range)
  have n1: "\<bar>n * 360\<bar> \<le> 2 ^ 40 * 360" using assms(8) by (simp add: abs_mult)
  have c: "(2::int) ^ 40 * 360 + 180 < 2 ^ 53" by simp
  have n: "\<bar>n * 360\<bar> < 2 ^ 53" "\<bar>b + n * 360\<bar> < 2 ^ 53"
    using assms(5,6) n1 c by linarith+
  have t1: "to_double (of_int n * 360) = Some (of_int (n * 360))"
    using to_double_of_int [OF n(1)] by simp
  have t2: "to_double (of_int b + of_int (n * 360)) = Some (of_int (b + n * 360))"
    using to_double_of_int [OF n(2)] by simp
  show ?thesis
    by (simp only: rotation_values_def assms(1,4,7) ra rb t1 t2 option.case)
qed

subsection \<open>The setter, the constructor and the shape of an interpolated tween\<close>

lemma set_easingType_valid:
  "e \<in> set VALID_EASING_TYPES \<Longrightarrow> set_easingType (Some e) this = this\<lparr>easingType := Some e\<rparr>"
  by (simp add: set_easingType_def indexOf_absent)

lemma set_easingType_invalid:
  "v \<notin> Some ` set VALID_EASING_TYPES \<Longrightarrow> set_easingType v this = this"
  by (simp add: set_easingType_def indexOf_absent)

lemma Tween_new_no_args:
  "Tween_new dflt None =
     \<lparr>playheadPosition = 1, transformation = dflt, fullRotations = 0, easingType = Some ''none''\<rparr>"
  by (simp add: Tween_new_def Transformation_new_def no_args_def or_number_def or_string_def
      set_easingType_valid VALID_EASING_TYPES_def)

lemma interpolate_Returns:
  assumes fn: "getTweenFunction tweenA = Easing tweenFn"
    and rot: "rotation_values tweenA tweenB = Endpoints valA valB"
    and dist: "playheadPosition tweenA \<noteq> playheadPosition tweenB"
  shows "interpolate dflt tweenA tweenB pos =
    Returns \<lparr>playheadPosition = pos,
      transformation =
        \<lparr>x = lerp (x (transformation tweenA)) (x (transformation tweenB))
               (tweenFn ((pos - playheadPosition tweenA) /
                         (playheadPosition tweenB - playheadPosition tweenA))),
         y = lerp (y (transformation tweenA)) (y (transformation tweenB))
               (tweenFn ((pos - playheadPosition tweenA) /
                         (playheadPosition tweenB - playheadPosition tweenA))),
         scaleX = lerp (scaleX (transformation tweenA)) (scaleX (transformation tweenB))
               (tweenFn ((pos - playheadPosition tweenA) /
                         (playheadPosition tweenB - playheadPosition tweenA))),
         scaleY = lerp (scaleY (transformation tweenA)) (scaleY (transformation tweenB))
               (tweenFn ((pos - playheadPosition tweenA) /
                         (playheadPosition tweenB - playheadPosition tweenA))),
         rotation = lerp valA valB
               (tweenFn ((pos - playheadPosition tweenA) /
                         (playheadPosition tweenB - playheadPosition tweenA))),
         opacity = lerp (opacity (transformation tweenA)) (opacity (transformation tweenB))
               (tweenFn ((pos - playheadPosition tweenA) /
                         (playheadPosition tweenB - playheadPosition tweenA)))\<rparr>,
      fullRotations = 0, easingType = Some ''none''\<rparr>"
  using dist
  by (cases dflt)
     (simp add: interpolate_def Tween_new_no_args fn rot calculateTimeValue_def
        interpolate_prop_def assign_prop_def Let_def)

lemma interpolate_Throws:
  "getTweenFunction tweenA = Undefined \<Longrightarrow> interpolate dflt tweenA tweenB pos = Throws TypeError"
  by (simp add: interpolate_def interpolate_prop_def)


lemma interpolate_NeverReturns:
  "getTweenFunction tweenA = Easing tweenFn \<Longrightarrow> rotation_values tweenA tweenB = LoopsForever
    \<Longrightarrow> interpolate dflt tweenA tweenB pos = NeverReturns"
  by (simp add: interpolate_def interpolate_prop_def assign_prop_def Let_def)

lemma interpolate_Overflows:
  "getTweenFunction tweenA = Easing tweenFn \<Longrightarrow> rotation_values tweenA tweenB = Overflows
    \<Longrightarrow> interpolate dflt tweenA tweenB pos = NotFinite"
  by (cases "calculateTimeValue tweenA tweenB pos")
     (simp_all add: interpolate_def interpolate_prop_def assign_prop_def Let_def)

lemma interpolate_CallsInherited:
  "getTweenFunction tweenA = InheritedFunction k
    \<Longrightarrow> interpolate dflt tweenA tweenB pos = CallsInherited k"
  by (simp add: interpolate_def interpolate_prop_def)

text \<open>The rotation values from the results of the single steps.\<close>

lemma rotation_values_eval:
  assumes "raise_rotation (rotation (transformation tweenA)) = Some a1"
    and "raise_rotation (rotation (transformation tweenB)) = Some b1"
    and "lower_rotation a1 = Some a2"
    and "lower_rotation b1 = Some b2"
    and "to_double (fullRotations tweenA * 360) = Some turns"
    and "to_double (b2 + turns) = Some valB"
  shows "rotation_values tweenA tweenB = Endpoints a2 valB"
  by (simp add: rotation_values_def assms)

lemma lower_rotation_190: "lower_rotation 190 = Some (- 170)"
proof -
  have "round_double (of_int (- 170)) = of_int (- 170)" by (rule round_double_of_int) simp
  then have r: "round_double (- 170) = - 170" by simp
  have "lower_rotation 190 = lower_rotation (round_double (190 - 360))"
    by (subst lower_rotation.simps) simp
  also have "\<dots> = Some (- 170)" by (simp add: r lower_rotation_in_range)
  finally show ?thesis .
qed

lemma to_double_zero: "to_double 0 = Some 0"
  by (simp add: to_double_def round_double_def)


section \<open>Interpolation of tweens\<close>

text \<open>
  Claim C1, as the code has it. For tweens A and B with A's playhead position before B's, a
  valid easing type on A, rotations of magnitude at most \<open>2^62\<close> and at most \<open>2^1015\<close> full
  rotations, the two loops end on A's rotation with a value \<open>valA\<close> in \<open>[-180, 180]\<close>, and
  interpolating at A's own playhead position returns A's transformation on the channels x,
  y, scaleX, scaleY and opacity, and \<open>valA\<close> on the rotation channel. The whole
  transformation is A's whenever A's rotation already lies in \<open>[-180, 180]\<close>.
\<close>

theorem boundary_identity:
  assumes "playheadPosition tweenA < playheadPosition tweenB"
    and "easingType tweenA = Some e" and "e \<in> set VALID_EASING_TYPES"
    and "\<bar>rotation (transformation tweenA)\<bar> \<le> 2 ^ 62"
    and "\<bar>rotation (transformation tweenB)\<bar> \<le> 2 ^ 62"
    and "\<bar>fullRotations tweenA\<bar> \<le> 2 ^ 1015"
  shows "\<exists>valA1 valA valB.
           raise_rotation (rotation (transformation tweenA)) = Some valA1
         \<and> lower_rotation valA1 = Some valA
         \<and> rotation_values tweenA tweenB = Endpoints valA valB
         \<and> - 180 \<le> valA \<and> valA \<le> 180
         \<and> interpolated_transformation dflt tweenA tweenB (playheadPosition tweenA) =
             Some ((transformation tweenA)\<lparr>rotation := valA\<rparr>)
         \<and> (- 180 \<le> rotation (transformation tweenA) \<and> rotation (transformation tweenA) \<le> 180
              \<longrightarrow> interpolated_transformation dflt tweenA tweenB (playheadPosition tweenA)
                    = Some (transformation tweenA))"
proof -
  from getTweenFunction_valid [OF assms(2,3)]
  obtain f where f: "getTweenFunction tweenA = Easing f" and f0: "f 0 = 0" by blast
  have ne: "playheadPosition tweenA \<noteq> playheadPosition tweenB" using assms(1) by simp
  from rotation_values_returns [OF assms(4,5,6)] obtain valA1 valA valB
    where r: "raise_rotation (rotation (transformation tweenA)) = Some valA1"
      "lower_rotation valA1 = Some valA"
      "rotation_values tweenA tweenB = Endpoints valA valB" "- 180 \<le> valA" "valA \<le> 180"
      "- 180 \<le> rotation (transformation tweenA) \<and> rotation (transformation tweenA) \<le> 180
        \<longrightarrow> valA = rotation (transformation tweenA)"
    by blast
  have main: "interpolated_transformation dflt tweenA tweenB (playheadPosition tweenA) =
           Some ((transformation tweenA)\<lparr>rotation := valA\<rparr>)"
    by (cases "transformation tweenA")
       (simp add: interpolated_transformation_def interpolate_Returns [OF f r(3) ne] f0 lerp_zero)
  have "- 180 \<le> rotation (transformation tweenA) \<and> rotation (transformation tweenA) \<le> 180
          \<longrightarrow> interpolated_transformation dflt tweenA tweenB (playheadPosition tweenA)
                = Some (transformation tweenA)"
    using main r(6) by auto
  with main r(1-5) show ?thesis by blast
qed

text \<open>
  The theorem at two inputs: a rotation of 190 comes back as -170, a rotation of 90 comes
  back as it is.
\<close>

theorem boundary_identity_witness:
  "interpolated_transformation identity_transformation
      (example_tween 1 (example_transformation 190) 0 ''in'')
      (example_tween 5 (example_target 0) 0 ''out'') 1
     = Some (example_transformation (- 170))
   \<and> interpolated_transformation identity_transformation
      (example_tween 2 (example_transformation 90) 3 ''in-out'')
      (example_tween 5 (example_target 0) 0 ''out'') 2
     = Some (example_transformation 90)"
proof -
  have v: "''in'' \<in> set VALID_EASING_TYPES" "''in-out'' \<in> set VALID_EASING_TYPES"
    by (simp_all add: VALID_EASING_TYPES_def)
  have r: "raise_rotation 190 = Some 190" by (simp add: raise_rotation_in_range)
  show ?thesis
    using boundary_identity [of "example_tween 1 (example_transformation 190) 0 ''in''"
        "example_tween 5 (example_target 0) 0 ''out''" "''in''" identity_transformation, OF _ _ v(1)]
      boundary_identity [of "example_tween 2 (example_transformation 90) 3 ''in-out''"
        "example_tween 5 (example_target 0) 0 ''out''" "''in-out''" identity_transformation, OF _ _ v(2)]
    by (auto simp add: example_tween_def example_transformation_def example_target_def r
        lower_rotation_190)
qed

text \<open>
  Claim C1 as it is worded asks for A's transformation on all six channels. With a rotation
  of 190 on A, the tween interpolated at A's position does not carry A's transformation.
\<close>

theorem boundary_identity_counterexample:
  "interpolated_transformation identity_transformation
      (example_tween 1 (example_transformation 190) 0 ''none'')
      (example_tween 5 (example_target 0) 0 ''none'')
      (playheadPosition (example_tween 1 (example_transformation 190) 0 ''none''))
    \<noteq> Some (transformation (example_tween 1 (example_transformation 190) 0 ''none''))"
proof -
  have f: "getTweenFunction (example_tween 1 (example_transformation 190) 0 ''none'')
             = Easing Easing_Linear_None"
    by (simp add: getTweenFunction_def example_tween_def)
  have r: "rotation_values (example_tween 1 (example_transformation 190) 0 ''none'')
             (example_tween 5 (example_target 0) 0 ''none'') = Endpoints (- 170) 0"
    by (rule rotation_values_eval [where ?a1.0 = 190 and ?b1.0 = 0 and ?b2.0 = 0 and turns = 0])
       (simp_all add: example_tween_def example_transformation_def example_target_def
          raise_rotation_in_range lower_rotation_in_range lower_rotation_190 to_double_zero)
  have ne: "playheadPosition (example_tween 1 (example_transformation 190) 0 ''none'')
              \<noteq> playheadPosition (example_tween 5 (example_target 0) 0 ''none'')"
    by (simp add: example_tween_def)
  show ?thesis
    by (simp add: interpolated_transformation_def interpolate_Returns [OF f r ne])
       (simp add: example_tween_def example_transformation_def lerp_def Easing_Linear_None_def)
qed

text \<open>
  Claim C6. The tween that \<open>interpolate\<close> produces does not depend on the easing type of
  tween B: two calls that differ only in B's easing type have the same outcome, and so the
  same interpolated transformation. The easing function is taken from tween A.
\<close>

theorem interpolate_ignores_tweenB_easingType:
  "interpolate dflt tweenA (tweenB\<lparr>easingType := e\<rparr>) pos = interpolate dflt tweenA tweenB pos
   \<and> interpolated_transformation dflt tweenA (tweenB\<lparr>easingType := e\<rparr>) pos
       = interpolated_transformation dflt tweenA tweenB pos"
proof -
  have t: "calculateTimeValue tweenA (tweenB\<lparr>easingType := e\<rparr>) pos
             = calculateTimeValue tweenA tweenB pos"
    by (simp add: calculateTimeValue_def)
  have tf: "transformation (tweenB\<lparr>easingType := e\<rparr>) = transformation tweenB" by simp
  have r: "rotation_values tweenA (tweenB\<lparr>easingType := e\<rparr>) = rotation_values tweenA tweenB"
    unfolding rotation_values_def tf ..
  have p: "interpolate_prop tweenA (tweenB\<lparr>easingType := e\<rparr>) = interpolate_prop tweenA tweenB"
    unfolding interpolate_prop_def r tf ..
  have "interpolate dflt tweenA (tweenB\<lparr>easingType := e\<rparr>) pos
          = interpolate dflt tweenA tweenB pos"
    unfolding interpolate_def t p ..
  then show ?thesis by (simp add: interpolated_transformation_def)
qed

lemma getTweenFunction_half:
  assumes "easingType tweenA = Some e" "e \<in> set VALID_EASING_TYPES"
  shows "\<exists>f t. getTweenFunction tweenA = Easing f \<and> 0 < t \<and> t < 1 \<and> f t = 1 / 2"
proof -
  have s0: "0 < sqrt (1 / 2 :: real)" by simp
  have s1: "sqrt (1 / 2 :: real) < 1" by (simp add: real_sqrt_lt_1_iff)
  have ss: "sqrt (1 / 2 :: real) * sqrt (1 / 2) = 1 / 2" by simp
  consider "e = ''none''" | "e = ''in''" | "e = ''out''" | "e = ''in-out''"
    using assms(2) by (auto simp: VALID_EASING_TYPES_def)
  then show ?thesis
  proof cases
    case 1
    have "Easing_Linear_None (1 / 2) = 1 / 2" by (simp add: Easing_Linear_None_def)
    moreover have "getTweenFunction tweenA = Easing Easing_Linear_None"
      using 1 assms(1) by (simp add: getTweenFunction_def)
    moreover have "(0::real) < 1 / 2" "(1 / 2 :: real) < 1" by simp_all
    ultimately show ?thesis by blast
  next
    case 2
    have "Easing_Quadratic_In (sqrt (1 / 2)) = 1 / 2"
      unfolding Easing_Quadratic_In_def by (rule ss)
    moreover have "getTweenFunction tweenA = Easing Easing_Quadratic_In"
      using 2 assms(1) by (simp add: getTweenFunction_def)
    ultimately show ?thesis using s0 s1 by blast
  next
    case 3
    have "(1 - sqrt (1 / 2 :: real)) * (2 - (1 - sqrt (1 / 2))) = 1 - sqrt (1 / 2) * sqrt (1 / 2)"
      by (simp only: algebra_simps)
    then have "Easing_Quadratic_Out (1 - sqrt (1 / 2)) = 1 / 2"
      unfolding Easing_Quadratic_Out_def ss by simp
    moreover have "getTweenFunction tweenA = Easing Easing_Quadratic_Out"
      using 3 assms(1) by (simp add: getTweenFunction_def)
    moreover have "0 < 1 - sqrt (1 / 2 :: real)" "1 - sqrt (1 / 2 :: real) < 1"
      using s0 s1 by simp_all
    ultimately show ?thesis by blast
  next
    case 4
    have "Easing_Quadratic_InOut (1 / 2) = 1 / 2"
      by (simp add: Easing_Quadratic_InOut_def Let_def)
    moreover have "getTweenFunction tweenA = Easing Easing_Quadratic_InOut"
      using 4 assms(1) by (simp add: getTweenFunction_def)
    moreover have "(0::real) < 1 / 2" "(1 / 2 :: real) < 1" by simp_all
    ultimately show ?thesis by blast
  qed
qed

lemma interpolated_rotation_Some:
  assumes "getTweenFunction tweenA = Easing tweenFn"
    and "rotation_values tweenA tweenB = Endpoints valA valB"
    and "playheadPosition tweenA \<noteq> playheadPosition tweenB"
  shows "interpolated_rotation dflt tweenA tweenB pos =
     Some (lerp valA valB
             (tweenFn ((pos - playheadPosition tweenA) /
                       (playheadPosition tweenB - playheadPosition tweenA))))"
  by (simp add: interpolated_rotation_def interpolated_transformation_def
      interpolate_Returns [OF assms])

text \<open>
  Claim C2. Tween A has rotation 170 and one full rotation, tween B has rotation -170, A's
  position is before B's and A's easing type is valid. Then between the two positions the
  interpolated rotation never decreases as the query position grows: it starts at 170 at A's
  position, stays within \<open>[170, 190]\<close>, takes the value 180 at a position strictly between
  the two, and ends at 190, which is -170 one turn further. It does not run backward
  through 0.
\<close>

theorem rotation_sweeps_forward:
  assumes lt: "playheadPosition tweenA < playheadPosition tweenB"
    and e: "easingType tweenA = Some e" "e \<in> set VALID_EASING_TYPES"
    and rA: "rotation (transformation tweenA) = 170"
    and rB: "rotation (transformation tweenB) = - 170"
    and full: "fullRotations tweenA = 1"
    and pq: "playheadPosition tweenA \<le> p" "p \<le> q" "q \<le> playheadPosition tweenB"
  shows "(\<exists>rp rq. interpolated_rotation dflt tweenA tweenB p = Some rp
            \<and> interpolated_rotation dflt tweenA tweenB q = Some rq
            \<and> 170 \<le> rp \<and> rp \<le> rq \<and> rq \<le> 190)
       \<and> interpolated_rotation dflt tweenA tweenB (playheadPosition tweenA) = Some 170
       \<and> interpolated_rotation dflt tweenA tweenB (playheadPosition tweenB) = Some 190
       \<and> (\<exists>m. playheadPosition tweenA < m \<and> m < playheadPosition tweenB
            \<and> interpolated_rotation dflt tweenA tweenB m = Some 180)"
proof -
  define a where "a = playheadPosition tweenA"
  define b where "b = playheadPosition tweenB"
  have ab: "a < b" and ne: "playheadPosition tweenA \<noteq> playheadPosition tweenB"
    using lt by (simp_all add: a_def b_def)
  have d: "0 < b - a" using ab by simp
  from getTweenFunction_valid [OF e]
  obtain f where f: "getTweenFunction tweenA = Easing f" and f0: "f 0 = 0" and f1: "f 1 = 1"
    and mono: "\<And>s u. 0 \<le> s \<Longrightarrow> s \<le> u \<Longrightarrow> u \<le> 1 \<Longrightarrow> f s \<le> f u" by blast
  have "rotation_values tweenA tweenB = Endpoints (of_int 170) (of_int (- 170 + 1 * 360))"
    by (rule rotation_values_of_int) (simp_all add: rA rB full)
  then have rv: "rotation_values tweenA tweenB = Endpoints 170 190" by simp
  have rot: "interpolated_rotation dflt tweenA tweenB pos = Some (170 + 20 * f ((pos - a) / (b - a)))"
    for pos
    unfolding interpolated_rotation_Some [OF f rv ne] a_def b_def
    by (simp add: lerp_def algebra_simps)
  have tp0: "0 \<le> (p - a) / (b - a)" using pq(1) d by (simp add: a_def)
  have tpq: "(p - a) / (b - a) \<le> (q - a) / (b - a)"
    using pq(2) d by (simp add: divide_right_mono)
  have tq1: "(q - a) / (b - a) \<le> 1" using pq(3) d by (simp add: b_def)
  have lo: "0 \<le> f ((p - a) / (b - a))" using mono [of 0 "(p - a) / (b - a)"] tp0 tpq tq1 f0 by simp
  have mid: "f ((p - a) / (b - a)) \<le> f ((q - a) / (b - a))" using mono tp0 tpq tq1 by blast
  have hi: "f ((q - a) / (b - a)) \<le> 1"
    using mono [of "(q - a) / (b - a)" 1] tp0 tpq tq1 f1 by simp
  have first: "\<exists>rp rq. interpolated_rotation dflt tweenA tweenB p = Some rp
            \<and> interpolated_rotation dflt tweenA tweenB q = Some rq
            \<and> 170 \<le> rp \<and> rp \<le> rq \<and> rq \<le> 190"
    unfolding rot using lo mid hi by simp
  have atA: "interpolated_rotation dflt tweenA tweenB (playheadPosition tweenA) = Some 170"
    unfolding rot by (simp add: a_def f0)
  have atB: "interpolated_rotation dflt tweenA tweenB (playheadPosition tweenB) = Some 190"
    unfolding rot using d by (simp add: b_def [symmetric] f1)
  from getTweenFunction_half [OF e] f
  obtain t where t: "0 < t" "t < 1" "f t = 1 / 2" by auto
  have tm: "((a + t * (b - a)) - a) / (b - a) = t" using d by simp
  have "a < a + t * (b - a)" using t(1) d by simp
  moreover have "a + t * (b - a) < b"
  proof -
    have "t * (b - a) < 1 * (b - a)" using t(2) d by (intro mult_strict_right_mono) auto
    then show ?thesis by simp
  qed
  moreover have "interpolated_rotation dflt tweenA tweenB (a + t * (b - a)) = Some 180"
    unfolding rot tm t(3) by simp
  ultimately have cross: "\<exists>m. playheadPosition tweenA < m \<and> m < playheadPosition tweenB
            \<and> interpolated_rotation dflt tweenA tweenB m = Some 180"
    unfolding a_def b_def by blast
  show ?thesis using first atA atB cross by blast
qed

text \<open>The theorem run on a pair of tweens at positions 1 and 5 with easing type "in".\<close>

theorem rotation_sweeps_forward_witness:
  "(\<exists>rp rq. interpolated_rotation identity_transformation
               (example_tween 1 (example_transformation 170) 1 ''in'')
               (example_tween 5 (example_target (- 170)) 0 ''none'') 2 = Some rp
            \<and> interpolated_rotation identity_transformation
               (example_tween 1 (example_transformation 170) 1 ''in'')
               (example_tween 5 (example_target (- 170)) 0 ''none'') 4 = Some rq
            \<and> 170 \<le> rp \<and> rp \<le> rq \<and> rq \<le> 190)
   \<and> interpolated_rotation identity_transformation
               (example_tween 1 (example_transformation 170) 1 ''in'')
               (example_tween 5 (example_target (- 170)) 0 ''none'') 1 = Some 170
   \<and> interpolated_rotation identity_transformation
               (example_tween 1 (example_transformation 170) 1 ''in'')
               (example_tween 5 (example_target (- 170)) 0 ''none'') 5 = Some 190
   \<and> (\<exists>m. 1 < m \<and> m < 5
        \<and> interpolated_rotation identity_transformation
               (example_tween 1 (example_transformation 170) 1 ''in'')
               (example_tween 5 (example_target (- 170)) 0 ''none'') m = Some 180)"
proof -
  have v: "''in'' \<in> set VALID_EASING_TYPES" by (simp add: VALID_EASING_TYPES_def)
  show ?thesis
    using rotation_sweeps_forward [of "example_tween 1 (example_transformation 170) 1 ''in''"
        "example_tween 5 (example_target (- 170)) 0 ''none''" "''in''" 2 4 identity_transformation,
        OF _ _ v]
    by (simp add: example_tween_def example_transformation_def example_target_def)
qed

text \<open>
  Claim C3 asks that for every pair of tweens with finite rotation values the loops end with
  both rotations in \<open>[-180, 180]\<close>. They do for rotations of magnitude at most \<open>2^62\<close>
  (\<open>rotation_values_steps\<close>: each loop returns, both constrained values lie in
  \<open>[-180, 180]\<close>, and the destination then has \<open>fullRotations * 360\<close> of tween A added);
  the other five channels are the \<open>lerp\<close> of the raw endpoint values (\<open>interpolate_Returns\<close>).
  At the finite rotation \<open>2^63\<close> the loop \<open>while(val > 180) val -= 360\<close> does not end: the
  doubles next to \<open>2^63\<close> are 1024 apart below it, so \<open>2^63 - 360\<close> is rounded back to
  \<open>2^63\<close>. With that rotation on tween A, or on tween B, \<open>interpolate\<close> never returns.
\<close>

theorem rotation_loop_never_ends:
  "round_double (2 ^ 63 - 360) = 2 ^ 63
   \<and> lower_rotation (2 ^ 63) = None
   \<and> rotation_values (example_tween 1 (example_transformation (2 ^ 63)) 0 ''none'')
        (example_tween 5 (example_target 0) 0 ''none'') = LoopsForever
   \<and> interpolate identity_transformation
        (example_tween 1 (example_transformation (2 ^ 63)) 0 ''none'')
        (example_tween 5 (example_target 0) 0 ''none'') 2 = NeverReturns
   \<and> interpolate identity_transformation
        (example_tween 1 (example_transformation 0) 0 ''none'')
        (example_tween 5 (example_target (2 ^ 63)) 0 ''none'') 2 = NeverReturns"
proof -
  have fA: "getTweenFunction (example_tween 1 (example_transformation (2 ^ 63)) 0 ''none'')
              = Easing Easing_Linear_None"
    and fB: "getTweenFunction (example_tween 1 (example_transformation 0) 0 ''none'')
              = Easing Easing_Linear_None"
    by (simp_all add: getTweenFunction_def example_tween_def)
  have rA: "rotation_values (example_tween 1 (example_transformation (2 ^ 63)) 0 ''none'')
        (example_tween 5 (example_target 0) 0 ''none'') = LoopsForever"
    by (rule rotation_values_loops_A)
       (simp_all add: example_tween_def example_transformation_def example_target_def)
  have rB: "rotation_values (example_tween 1 (example_transformation 0) 0 ''none'')
        (example_tween 5 (example_target (2 ^ 63)) 0 ''none'') = LoopsForever"
    by (rule rotation_values_loops_B)
       (simp_all add: example_tween_def example_transformation_def example_target_def)
  show ?thesis
    using round_double_absorbs lower_rotation_never_returns rA
      interpolate_NeverReturns [OF fA rA] interpolate_NeverReturns [OF fB rB]
    by blast
qed





section \<open>Serialization of tweens\<close>

text \<open>
  Claim C5. For a tween whose easing type is valid, \<open>deserialize\<close> applied (on any tween
  object) to the data that \<open>serialize\<close> produced gives back the same playhead position, the
  same transformation with its six channels, the same full rotations and the same easing
  type: the same tween. The transformation is written out by \<open>values\<close> and rebuilt by the
  constructor of \<open>Wick.Transformation\<close>.
\<close>

theorem tween_serialize_deserialize_roundtrip:
  assumes "easingType tw = Some e" and "e \<in> set VALID_EASING_TYPES"
  shows "Tween_deserialize dflt this (Tween_serialize tw) = tw"
  using assms
  by (cases tw, cases this, cases "transformation tw")
     (simp add: Tween_deserialize_def Tween_serialize_def set_easingType_valid
        Transformation_new_def Transformation_values_def)

text \<open>The theorem run on a tween, deserialized into a freshly constructed one.\<close>

theorem tween_serialize_deserialize_roundtrip_witness:
  "Tween_deserialize identity_transformation (Tween_new identity_transformation None)
     (Tween_serialize (example_tween 7 (example_transformation 200) 2 ''in-out''))
   = example_tween 7 (example_transformation 200) 2 ''in-out''"
proof -
  have v: "''in-out'' \<in> set VALID_EASING_TYPES" by (simp add: VALID_EASING_TYPES_def)
  show ?thesis
    using tween_serialize_deserialize_roundtrip
      [of "example_tween 7 (example_transformation 200) 2 ''in-out''" "''in-out''"
          identity_transformation "Tween_new identity_transformation None", OF _ v]
    by (simp add: example_tween_def)
qed


section \<open>The easing type of a tween\<close>

text \<open>
  The setter keeps a valid easing type valid; the constructor stores "none" when no easing
  type (or the empty string) is given, and a valid one as given; \<open>deserialize\<close> stores a
  valid easing type of the data.
\<close>

lemma set_easingType_preserves_valid:
  "easingType this \<in> Some ` set VALID_EASING_TYPES
    \<Longrightarrow> easingType (set_easingType v this) \<in> Some ` set VALID_EASING_TYPES"
  by (auto simp: set_easingType_def indexOf_absent)

lemma Tween_new_default_easingType:
  "arg_easingType args = None \<or> arg_easingType args = Some []
    \<Longrightarrow> easingType (Tween_new dflt (Some args)) = Some ''none''"
  by (auto simp: Tween_new_def or_string_def set_easingType_valid VALID_EASING_TYPES_def)

lemma Tween_new_valid_easingType:
  "arg_easingType args = Some e \<Longrightarrow> e \<in> set VALID_EASING_TYPES
    \<Longrightarrow> easingType (Tween_new dflt (Some args)) = Some e"
  by (auto simp: Tween_new_def or_string_def set_easingType_valid VALID_EASING_TYPES_def)

lemma Tween_deserialize_valid_easingType:
  "data_easingType data = Some e \<Longrightarrow> e \<in> set VALID_EASING_TYPES
    \<Longrightarrow> easingType (Tween_deserialize dflt this data) = Some e"
  by (simp add: Tween_deserialize_def set_easingType_valid)

text \<open>
  The constructor called with an easing type outside the list: the setter refuses it, and
  the property stays what it was in the new object, undefined.
\<close>

lemma Tween_new_invalid_easingType:
  "arg_easingType args = Some e \<Longrightarrow> e \<noteq> [] \<Longrightarrow> e \<notin> set VALID_EASING_TYPES
    \<Longrightarrow> easingType (Tween_new dflt (Some args)) = None"
  by (simp add: Tween_new_def or_string_def set_easingType_invalid image_iff)

text \<open>
  Claim C9 asks that the easing type of a tween is always one of the four valid ones, also
  right after construction. A tween constructed with \<open>easingType: 'bounce'\<close> has no easing
  type at all, and \<open>interpolate\<close> from it throws a \<open>TypeError\<close>.
\<close>

theorem constructor_leaves_easingType_undefined:
  "easingType (Tween_new identity_transformation (Some (example_args None (Some ''bounce''))))
     = None
   \<and> interpolate identity_transformation
       (Tween_new identity_transformation (Some (example_args None (Some ''bounce''))))
       (Tween_new identity_transformation (Some (example_args (Some 5) None))) 2
     = Throws TypeError"
proof -
  have "easingType (Tween_new identity_transformation (Some (example_args None (Some ''bounce''))))
          = None"
    by (rule Tween_new_invalid_easingType [of _ "''bounce''"])
       (simp_all add: example_args_def VALID_EASING_TYPES_def)
  then show ?thesis by (simp add: interpolate_Throws getTweenFunction_undefined)
qed


section \<open>Ticks and the play loop\<close>

text \<open>
  \<open>tick\<close> when the tick of the focused clip returns, and when it throws: \<open>tick\<close> and the
  round of the play loop hand on what is thrown, and neither \<open>onError\<close> nor \<open>stop\<close> is
  reached.
\<close>

lemma tick_returns:
  "clip_tick (focused rt) = Inr (error, c) \<Longrightarrow>
   tick clip_tick rt =
     Inr (error,
          \<lparr>project = (project rt)\<lparr>keysLastDown := keysDown (project rt)\<rparr>,
           focused = c,
           effects = effects rt @ [ProcessInput, Render, BuildPlayhead]\<rparr>)"
  by (cases rt) (simp add: tick_def emit_def Let_def)

lemma tick_throws:
  "clip_tick (focused rt) = Inl (thrown, c) \<Longrightarrow>
   tick clip_tick rt =
     Inl (thrown, \<lparr>project = project rt, focused = c, effects = effects rt @ [ProcessInput]\<rparr>)"
  by (cases rt) (simp add: tick_def emit_def Let_def)

lemma play_interval_throws:
  "clip_tick (focused rt) = Inl (thrown, c) \<Longrightarrow>
   play_interval clip_tick rt =
     Inl (thrown,
          \<lparr>project = project rt, focused = c,
           effects = effects rt @ [OnBeforeTick, ProcessInput]\<rparr>)"
  by (cases rt) (simp add: play_interval_def tick_def emit_def Let_def)

lemma Clip_tick_returns:
  "Clip_tick scripts c = Inr (fst (run_scripts scripts c), snd (run_scripts scripts c))"
  by (simp add: Clip_tick_def)

text \<open>
  Claim C7. With the tick of a clip that collects the first failure of a script and returns
  it, \<open>tick\<close> returns and does not throw (its outcome is an \<open>Inr\<close>), and the value it
  returns is that first failure, or a falsy value when no script failed. One round of the
  play loop returns as well and takes that value as the tick's error: with an error it calls
  \<open>onError\<close> with it and stops playback (the sounds are stopped, the interval is cleared and
  \<open>_tickIntervalID\<close> is null) without calling \<open>onAfterTick\<close>; without one it calls
  \<open>onAfterTick\<close> and the interval stays.
\<close>

theorem tick_reports_error_as_value:
  "(\<exists>rt'. tick (Clip_tick scripts :: 'c \<Rightarrow> ('x \<times> 'c) + ('e option \<times> 'c)) rt
            = Inr (fst (run_scripts scripts (focused rt)), rt'))
   \<and> (fst (run_scripts scripts (focused rt)) = Some e \<longrightarrow>
        (\<exists>rt'. play_interval
                 (Clip_tick scripts :: 'c \<Rightarrow> ('x \<times> 'c) + ('e option \<times> 'c)) rt = Inr rt'
           \<and> effects rt' =
               effects rt @ [OnBeforeTick, ProcessInput, Render, BuildPlayhead, OnError e,
                             StopAllSounds, ClearInterval (tickIntervalID (project rt))]
           \<and> tickIntervalID (project rt') = None))
   \<and> (fst (run_scripts scripts (focused rt)) = None \<longrightarrow>
        (\<exists>rt'. play_interval
                 (Clip_tick scripts :: 'c \<Rightarrow> ('x \<times> 'c) + ('e option \<times> 'c)) rt = Inr rt'
           \<and> effects rt' =
               effects rt @ [OnBeforeTick, ProcessInput, Render, BuildPlayhead, OnAfterTick]
           \<and> tickIntervalID (project rt') = tickIntervalID (project rt)))"
proof -
  have t: "tick (Clip_tick scripts) r =
     Inr (fst (run_scripts scripts (focused r)),
          \<lparr>project = (project r)\<lparr>keysLastDown := keysDown (project r)\<rparr>,
           focused = snd (run_scripts scripts (focused r)),
           effects = effects r @ [ProcessInput, Render, BuildPlayhead]\<rparr>)" for r
    by (rule tick_returns) (rule Clip_tick_returns)
  have a: "\<exists>rt'. tick (Clip_tick scripts) rt = Inr (fst (run_scripts scripts (focused rt)), rt')"
    unfolding t by blast
  have b: "fst (run_scripts scripts (focused rt)) = Some e \<longrightarrow>
        (\<exists>rt'. play_interval (Clip_tick scripts) rt = Inr rt'
           \<and> effects rt' =
               effects rt @ [OnBeforeTick, ProcessInput, Render, BuildPlayhead, OnError e,
                             StopAllSounds, ClearInterval (tickIntervalID (project rt))]
           \<and> tickIntervalID (project rt') = None)"
    by (cases rt) (simp add: play_interval_def t stop_def emit_def Let_def)
  have c: "fst (run_scripts scripts (focused rt)) = None \<longrightarrow>
        (\<exists>rt'. play_interval (Clip_tick scripts) rt = Inr rt'
           \<and> effects rt' =
               effects rt @ [OnBeforeTick, ProcessInput, Render, BuildPlayhead, OnAfterTick]
           \<and> tickIntervalID (project rt') = tickIntervalID (project rt))"
    by (cases rt) (simp add: play_interval_def t emit_def Let_def)
  from a b c show ?thesis by blast
qed

text \<open>
  The theorem run on a clip (a counter) with three scripts of which the second fails, and on
  one with a single script that does not fail.
\<close>

theorem tick_reports_error_as_value_witness:
  "fst (run_scripts [\<lambda>c. Inr (Suc c), \<lambda>c. Inl ''script error'', \<lambda>c. Inr (c + 10)] (0::nat))
     = Some ''script error''
   \<and> (\<exists>rt'. play_interval
               (Clip_tick [\<lambda>c. Inr (Suc c), \<lambda>c. Inl ''script error'', \<lambda>c. Inr (c + 10)]
                  :: nat \<Rightarrow> (string \<times> nat) + (string option \<times> nat))
               (example_runtime (0::nat)) = Inr rt'
        \<and> effects rt' =
            [OnBeforeTick, ProcessInput, Render, BuildPlayhead, OnError ''script error'',
             StopAllSounds, ClearInterval (Some 7)]
        \<and> tickIntervalID (project rt') = None)
   \<and> fst (run_scripts [\<lambda>c. Inr (Suc c) :: string + nat] (0::nat)) = None
   \<and> (\<exists>rt'. play_interval
               (Clip_tick [\<lambda>c. Inr (Suc c) :: string + nat]
                  :: nat \<Rightarrow> (string \<times> nat) + (string option \<times> nat))
               (example_runtime (0::nat)) = Inr rt'
        \<and> effects rt' = [OnBeforeTick, ProcessInput, Render, BuildPlayhead, OnAfterTick]
        \<and> tickIntervalID (project rt') = Some 7)"
proof -
  have f: "fst (run_scripts [\<lambda>c. Inr (Suc c), \<lambda>c. Inl ''script error'', \<lambda>c. Inr (c + 10)]
             (0::nat)) = Some ''script error''"
    by simp
  have s: "fst (run_scripts [\<lambda>c. Inr (Suc c) :: string + nat] (0::nat)) = None" by simp
  show ?thesis
    using tick_reports_error_as_value
        [where ?'x = string,
         of "[\<lambda>c. Inr (Suc c), \<lambda>c. Inl ''script error'', \<lambda>c. Inr (c + 10)]"
            "example_runtime (0::nat)" "''script error''"]
      tick_reports_error_as_value
        [where ?'x = string, of "[\<lambda>c. Inr (Suc c) :: string + nat]" "example_runtime (0::nat)" "''script error''"]
    by (simp add: f s) (simp add: example_runtime_def example_project_def)
qed


section \<open>Playhead positions\<close>
















section \<open>Deserializing a project\<close>

text \<open>
  Claim C10. When the global scope has no variable \<open>object\<close>, the instance method
  \<open>deserialize\<close> of a project ends in a \<open>ReferenceError\<close> for every project and every data
  object, after it has assigned the fields; in particular it does so on the data that
  \<open>serialize\<close> produced, so the round trip through this method does not return a project.
\<close>

theorem Project_deserialize_never_returns:
  assumes "globals ''object'' = None"
  shows "fst (Project_deserialize globals this data) = Inl ReferenceError
    \<and> fst (Project_deserialize globals this (Project_serialize p)) = Inl ReferenceError
    \<and> name (snd (Project_deserialize globals this data)) = pdata_name data
    \<and> root_uuid (snd (Project_deserialize globals this data)) = pdata_root data
    \<and> focus_uuid (snd (Project_deserialize globals this data)) = pdata_root data"
  using assms
  by (simp add: Project_deserialize_def read_global_def Let_def split: option.split)

text \<open>The theorem run with an empty global scope on the serialized example project.\<close>

theorem Project_deserialize_never_returns_witness:
  "fst (Project_deserialize (Map.empty :: string \<rightharpoonup> project) example_project
          (Project_serialize example_project)) = Inl ReferenceError
   \<and> focus_uuid (snd (Project_deserialize (Map.empty :: string \<rightharpoonup> project)
          example_project (Project_serialize example_project))) = ''root''"
  using Project_deserialize_never_returns [of "Map.empty :: string \<rightharpoonup> project"
      example_project "Project_serialize example_project" example_project]
  by (simp add: Project_serialize_def example_project_def)

end
